theory Spec2Isabelle
  imports Complex_Main "HOL-Library.AList" "HOL-Library.Char_ord" "HOL-Library.List_Lexorder"
    "HOL-Library.Log_Nat"
begin

section \<open>Release validation driver: \<open>RelVal/o2dpg_release_validation.py\<close>\<close>

text \<open>
  The Python exceptions that the modelled functions can raise. A function that can raise
  returns \<open>py_error + 'a\<close>, with \<open>Inl\<close> for the exception.
\<close>

datatype py_error = KeyError | IndexError | ZeroDivisionError | OverflowError | AttributeError

subsection \<open>True division of Python ints\<close>

text \<open>
  \<open>a / b\<close> on two Python ints returns a float: the IEEE 754 double nearest to the
  exact quotient, ties going to the even significand. A double is kept here as the
  rational number it denotes. Doubles have a significand of 53 bits; the least exponent
  of a normal double is \<open>-1022\<close>, below it the doubles are the multiples of
  \<open>2 powi -1074\<close>; a quotient that rounds to \<open>2 powi 1024\<close> or more is beyond the
  doubles.
\<close>

text \<open>Rounding a rational to the nearest integer, ties to the even one.\<close>

definition round_half_even :: "rat \<Rightarrow> int" where
  "round_half_even x =
     (let f = \<lfloor>x\<rfloor>; r = x - of_int f in
      if r < 1 / 2 then f
      else if 1 / 2 < r then f + 1
      else if even f then f else f + 1)"

text \<open>
  For positive \<open>a\<close> and \<open>b\<close>, the exponent \<open>e\<close> of the quotient:
  \<open>2 powi e \<le> a / b < 2 powi (e + 1)\<close>. The difference of the bit lengths is \<open>e\<close> or
  \<open>e + 1\<close>.
\<close>

definition quotient_exponent :: "int \<Rightarrow> int \<Rightarrow> int" where
  "quotient_exponent a b =
     (let e = bitlen a - bitlen b in
      if (2 :: rat) powi e \<le> of_int a / of_int b then e else e - 1)"

text \<open>
  The double nearest to \<open>a / b\<close> for \<open>b \<noteq> 0\<close>, with no upper limit on the exponent:
  the quotient is rounded to a multiple of the spacing of the doubles at its exponent.
\<close>

definition double_quotient :: "int \<Rightarrow> int \<Rightarrow> rat" where
  "double_quotient a b =
     (if a = 0 then 0
      else
        (let e = quotient_exponent \<bar>a\<bar> \<bar>b\<bar>;
             spacing = (2 :: rat) powi (max e (- 1022) - 52)
         in of_int (round_half_even (of_int a / of_int b / spacing)) * spacing))"

text \<open>
  \<open>a / b\<close>: \<open>ZeroDivisionError\<close> for a zero divisor (also for \<open>0 / 0\<close>),
  \<open>OverflowError\<close> when the rounded quotient is beyond the doubles.
\<close>

definition true_divide :: "int \<Rightarrow> int \<Rightarrow> py_error + rat" where
  "true_divide a b =
     (if b = 0 then Inl ZeroDivisionError
      else
        (let x = double_quotient a b in
         if 2 ^ 1024 \<le> \<bar>x\<bar> then Inl OverflowError else Inr x))"

subsection \<open>Size-divergence check\<close>

text \<open>
  \<open>itertools.combinations(range(n), 2)\<close>: the index pairs \<open>(i1, i2)\<close> with
  \<open>i1 < i2 < n\<close>, in lexicographic order.
\<close>

definition combinations2 :: "nat \<Rightarrow> (nat \<times> nat) list" where
  "combinations2 n = concat (map (\<lambda>i1. map (\<lambda>i2. (i1, i2)) [Suc i1..<n]) [0..<n])"

text \<open>
  The body of the \<open>for i1, i2 in combinations(...)\<close> loop of
  \<open>exceeding_difference_thresh\<close>, with \<open>diff_indices\<close> as the accumulator.
  Sizes are Python ints and \<open>diff / sizes[i2]\<close> is their true division; the threshold
  is the number that the float argument denotes, and a float is compared with it
  exactly. The condition is written twice in the source, joined by \<open>or\<close>: the second
  operand repeats the division, which gives the same value again and is reached only
  when the first division has returned. The indices come from \<open>range(len(sizes))\<close>,
  so \<open>sizes ! i\<close> is always read in range.
\<close>

fun exceeding_loop ::
  "int list \<Rightarrow> rat \<Rightarrow> (nat \<times> nat) list \<Rightarrow> (nat \<times> nat) list \<Rightarrow> py_error + (nat \<times> nat) list"
where
  "exceeding_loop sizes threshold [] diff_indices = Inr diff_indices"
| "exceeding_loop sizes threshold ((i1, i2) # rest) diff_indices =
     (let diff = \<bar>sizes ! i1 - sizes ! i2\<bar> in
      case true_divide diff (sizes ! i2) of
        Inl e \<Rightarrow> Inl e
      | Inr ratio \<Rightarrow>
          if ratio > threshold \<or> ratio > threshold
          then exceeding_loop sizes threshold rest (diff_indices @ [(i1, i2)])
          else exceeding_loop sizes threshold rest diff_indices)"

definition exceeding_difference_thresh :: "int list \<Rightarrow> rat \<Rightarrow> py_error + (nat \<times> nat) list" where
  "exceeding_difference_thresh sizes threshold =
     exceeding_loop sizes threshold (combinations2 (length sizes)) []"

text \<open>
  The argparse default of \<open>--threshold\<close> (\<open>main\<close>): the float literal \<open>0.1\<close>, the
  double nearest to \<open>1 / 10\<close>.
\<close>

definition THRESHOLD_DEFAULT :: rat where
  "THRESHOLD_DEFAULT = double_quotient 1 10"

text \<open>
  The flagging condition of the check, as a predicate on an index pair: the quotient that
  Python computes is above the threshold.
\<close>

definition exceeds :: "int list \<Rightarrow> rat \<Rightarrow> nat \<times> nat \<Rightarrow> bool" where
  "exceeds sizes threshold p =
     (threshold < double_quotient \<bar>sizes ! fst p - sizes ! snd p\<bar> (sizes ! snd p))"

text \<open>
  Sizes of files as \<open>stat\<close> reports them: not negative and below \<open>2 ^ 63\<close>.
\<close>

definition file_size_list :: "int list \<Rightarrow> bool" where
  "file_size_list sizes = list_all (\<lambda>s. 0 \<le> s \<and> s < 2 ^ 63) sizes"

subsection \<open>Summary documents\<close>

text \<open>
  One entry of a test list in \<open>Summary.json\<close>: a JSON object with the keys
  \<open>test_name\<close>, \<open>result\<close>, \<open>comparable\<close>, \<open>value\<close> and \<open>threshold\<close>
  (the fields \<open>test_value\<close> and \<open>test_threshold\<close>). The keys \<open>name\<close>,
  \<open>type_global\<close>, \<open>type_specific\<close> and \<open>rel_path_plot\<close> are the ones that
  \<open>make_summary\<close> sets; they are \<open>None\<close> while the key is absent. The type \<open>'v\<close>
  is the type of the JSON numbers.
\<close>

record 'v test_outcome =
  test_name :: string
  result :: string
  comparable :: bool
  test_value :: 'v
  test_threshold :: 'v
  name :: "string option"
  type_global :: "string option"
  type_specific :: "string option"
  rel_path_plot :: "string option"

text \<open>
  A summary document as \<open>json.load\<close> returns it: a dict from histogram name to test
  list, kept as an association list in the dict's iteration (insertion) order.
\<close>

type_synonym 'v summary = "(string \<times> 'v test_outcome list) list"

definition REL_VAL_SEVERITY_MAP :: "(string \<times> nat) list" where
  "REL_VAL_SEVERITY_MAP =
     [(''GOOD'', 0), (''WARNING'', 1), (''NONCRIT_NC'', 2), (''CRIT_NC'', 3), (''BAD'', 4)]"

text \<open>\<open>d[k]\<close> on a dict: \<open>KeyError\<close> when the key is absent.\<close>

definition getitem :: "('k \<times> 'a) list \<Rightarrow> 'k \<Rightarrow> py_error + 'a" where
  "getitem d k = (case map_of d k of None \<Rightarrow> Inl KeyError | Some v \<Rightarrow> Inr v)"

subsection \<open>\<open>print_summary\<close>\<close>

text \<open>
  The inner loop \<open>for test in tests\<close> of \<open>print_summary\<close>: every test whose name is
  not \<open>test_summary\<close> is skipped; for the others
  \<open>test_n_hist_map[result].append(histo_name)\<close> raises \<open>KeyError\<close> when \<open>result\<close> is
  not a key of the map.
\<close>

fun summary_tests_loop ::
  "string \<Rightarrow> 'v test_outcome list \<Rightarrow> (string \<times> string list) list
     \<Rightarrow> py_error + (string \<times> string list) list"
where
  "summary_tests_loop histo_name [] test_n_hist_map = Inr test_n_hist_map"
| "summary_tests_loop histo_name (test # tests) test_n_hist_map =
     (if test_name test \<noteq> ''test_summary''
      then summary_tests_loop histo_name tests test_n_hist_map
      else (case map_of test_n_hist_map (result test) of
              None \<Rightarrow> Inl KeyError
            | Some histos \<Rightarrow>
                summary_tests_loop histo_name tests
                  (AList.update (result test) (histos @ [histo_name]) test_n_hist_map)))"

text \<open>The outer loop \<open>for histo_name, tests in summary.items()\<close>.\<close>

fun summary_items_loop ::
  "'v summary \<Rightarrow> (string \<times> string list) list \<Rightarrow> py_error + (string \<times> string list) list"
where
  "summary_items_loop [] test_n_hist_map = Inr test_n_hist_map"
| "summary_items_loop ((histo_name, tests) # items) test_n_hist_map =
     (case summary_tests_loop histo_name tests test_n_hist_map of
        Inl e \<Rightarrow> Inl e
      | Inr m \<Rightarrow> summary_items_loop items m)"

text \<open>
  \<open>print_summary\<close>, applied to the loaded document. The map starts as
  \<open>{s: [] for s in REL_VAL_SEVERITY_MAP}\<close>; the counts that the function prints are
  not part of the returned value.
\<close>

definition print_summary :: "'v summary \<Rightarrow> py_error + (string \<times> string list) list" where
  "print_summary summary =
     summary_items_loop summary (map (\<lambda>s. (fst s, [])) REL_VAL_SEVERITY_MAP)"

text \<open>
  The names that the loops of \<open>print_summary\<close> append under a severity, read off the
  document: one entry per \<open>test_summary\<close> outcome with that result, in document
  order; first for one test list, then for a whole document.
\<close>

definition test_names :: "string \<Rightarrow> 'v test_outcome list \<Rightarrow> string \<Rightarrow> string list" where
  "test_names histo_name tests sev =
     map (\<lambda>_. histo_name)
       (filter (\<lambda>t. test_name t = ''test_summary'' \<and> result t = sev) tests)"

definition summary_names :: "'v summary \<Rightarrow> string \<Rightarrow> string list" where
  "summary_names summary sev =
     concat (map (\<lambda>(histo_name, tests). test_names histo_name tests sev) summary)"

text \<open>Appending \<open>f key\<close> to the list stored under every key of a map.\<close>

definition add_names ::
  "(string \<Rightarrow> string list) \<Rightarrow> (string \<times> string list) list \<Rightarrow> (string \<times> string list) list"
where
  "add_names f m = map (\<lambda>p. (fst p, snd p @ f (fst p))) m"

text \<open>
  A document whose overall verdicts are severity labels: every \<open>test_summary\<close>
  outcome has a \<open>result\<close> that is a key of \<open>REL_VAL_SEVERITY_MAP\<close>.
\<close>

definition valid_results :: "'v summary \<Rightarrow> bool" where
  "valid_results summary =
     (\<forall>(histo_name, tests) \<in> set summary. \<forall>t \<in> set tests.
        test_name t = ''test_summary'' \<longrightarrow> result t \<in> fst ` set REL_VAL_SEVERITY_MAP)"

text \<open>
  The example of the specification: \<open>H1\<close> has the overall verdict \<open>BAD\<close>, \<open>H2\<close>
  has no \<open>test_summary\<close> outcome.
\<close>

definition example_summary :: "rat summary" where
  "example_summary =
     [(''H1'', [\<lparr>test_name = ''chi2'', result = ''GOOD'', comparable = True,
                 test_value = 6 / 5, test_threshold = 3 / 2, name = None,
                 type_global = None, type_specific = None, rel_path_plot = None\<rparr>,
               \<lparr>test_name = ''test_summary'', result = ''BAD'', comparable = False,
                 test_value = 0, test_threshold = 0, name = None,
                 type_global = None, type_specific = None, rel_path_plot = None\<rparr>]),
      (''H2'', [\<lparr>test_name = ''chi2'', result = ''WARNING'', comparable = True,
                 test_value = 2, test_threshold = 3 / 2, name = None,
                 type_global = None, type_specific = None, rel_path_plot = None\<rparr>])]"

subsection \<open>\<open>compare\<close>: names with different severities\<close>

text \<open>\<open>os.path.join\<close> of two components (POSIX).\<close>

definition join :: "string \<Rightarrow> string \<Rightarrow> string" where
  "join a b =
     (if b \<noteq> [] \<and> hd b = CHR ''/'' then b
      else if a = [] \<or> last a = CHR ''/'' then a @ b
      else a @ ''/'' @ b)"

text \<open>Evaluating a list comprehension whose element expression can raise.\<close>

fun map_raise :: "('a \<Rightarrow> py_error + 'b) \<Rightarrow> 'a list \<Rightarrow> py_error + 'b list" where
  "map_raise f [] = Inr []"
| "map_raise f (x # xs) =
     (case f x of
        Inl e \<Rightarrow> Inl e
      | Inr y \<Rightarrow> (case map_raise f xs of Inl e \<Rightarrow> Inl e | Inr ys \<Rightarrow> Inr (y # ys)))"

text \<open>
  \<open>list(set(a) & set(b))\<close>. Python leaves the iteration order of a set open; here the
  elements come in the order of their first occurrence in \<open>a\<close>. The callers only test
  membership in the list or sort it.
\<close>

definition set_intersection :: "'a list \<Rightarrow> 'a list \<Rightarrow> 'a list" where
  "set_intersection a b = filter (\<lambda>x. x \<in> set b) (remdups a)"

text \<open>
  The body of \<open>for i, summary in enumerate(summaries)\<close>: the names of
  \<open>summary[severity]\<close> that are printed, those not in \<open>intersection\<close>.
\<close>

definition compare_file ::
  "string \<Rightarrow> string list \<Rightarrow> (string \<times> string list) list \<Rightarrow> py_error + string list"
where
  "compare_file severity intersection summary =
     (case getitem summary severity of
        Inl e \<Rightarrow> Inl e
      | Inr histos \<Rightarrow> Inr (filter (\<lambda>histo_name. histo_name \<notin> set intersection) histos))"

text \<open>
  The body of \<open>for severity in REL_VAL_SEVERITY_MAP\<close>: \<open>summaries[0]\<close> and
  \<open>summaries[1]\<close> raise \<open>IndexError\<close> on a list of fewer than two summaries. The
  result pairs the severity with the printed names of every file.
\<close>

definition compare_severity ::
  "(string \<times> string list) list list \<Rightarrow> string \<Rightarrow> py_error + (string \<times> string list list)"
where
  "compare_severity summaries severity =
     (case summaries of
        s0 # s1 # _ \<Rightarrow>
          (case getitem s0 severity of
             Inl e \<Rightarrow> Inl e
           | Inr b0 \<Rightarrow>
               (case getitem s1 severity of
                  Inl e \<Rightarrow> Inl e
                | Inr b1 \<Rightarrow>
                    (case map_raise (compare_file severity (set_intersection b0 b1)) summaries of
                       Inl e \<Rightarrow> Inl e
                     | Inr printed \<Rightarrow> Inr (severity, printed))))
      | _ \<Rightarrow> Inl IndexError)"

text \<open>
  The statements of the \<open>if args.difference\<close> branch of \<open>compare\<close>, for the list
  \<open>inputs\<close> that \<open>args.input\<close> evaluates to. \<open>read_summary\<close> is the file system: the
  document stored at a path, \<open>None\<close> when the file does not exist. The result is the
  exit code and, per severity, the names printed for each file. A missing file ends the
  function with code 1 before anything is compared.
\<close>

definition difference_branch ::
  "(string \<Rightarrow> 'v summary option) \<Rightarrow> string list
     \<Rightarrow> py_error + (nat \<times> (string \<times> string list list) list)"
where
  "difference_branch read_summary inputs =
     (let summaries = map (\<lambda>i. join i ''SummaryGlobal.json'') inputs in
      if \<exists>summary \<in> set summaries. read_summary summary = None then Inr (1, [])
      else
        (case map_raise (\<lambda>summary. print_summary (the (read_summary summary))) summaries of
           Inl e \<Rightarrow> Inl e
         | Inr summaries \<Rightarrow>
             (case map_raise (compare_severity summaries) (map fst REL_VAL_SEVERITY_MAP) of
                Inl e \<Rightarrow> Inl e
              | Inr report \<Rightarrow> Inr (0, report))))"

subsection \<open>\<open>make_new_threshold_file\<close>\<close>

text \<open>
  The loop \<open>for t in tests\<close> of \<open>make_new_threshold_file\<close>; \<open>written\<close> holds the
  strings passed to \<open>f.write\<close> so far, and \<open>str_value\<close> is Python's formatting of a
  JSON number inside an f-string.
\<close>

fun threshold_tests_loop ::
  "('v \<Rightarrow> string) \<Rightarrow> string \<Rightarrow> 'v test_outcome list \<Rightarrow> string list \<Rightarrow> string list"
where
  "threshold_tests_loop str_value histo_name [] written = written"
| "threshold_tests_loop str_value histo_name (t # tests) written =
     (if \<not> comparable t then threshold_tests_loop str_value histo_name tests written
      else threshold_tests_loop str_value histo_name tests
             (written @ [histo_name @ '','' @ test_name t @ '','' @ str_value (test_value t)
                          @ [CHR 0x0A]]))"

fun threshold_items_loop ::
  "('v \<Rightarrow> string) \<Rightarrow> 'v summary \<Rightarrow> string list \<Rightarrow> string list"
where
  "threshold_items_loop str_value [] written = written"
| "threshold_items_loop str_value ((histo_name, tests) # items) written =
     threshold_items_loop str_value items
       (threshold_tests_loop str_value histo_name tests written)"

text \<open>
  \<open>make_new_threshold_file\<close>, applied to the loaded document: the list of strings
  written to the fresh output file, in order. The file's content is their
  concatenation.
\<close>

definition make_new_threshold_file :: "('v \<Rightarrow> string) \<Rightarrow> 'v summary \<Rightarrow> string list" where
  "make_new_threshold_file str_value json_in = threshold_items_loop str_value json_in []"

definition threshold_line :: "('v \<Rightarrow> string) \<Rightarrow> string \<Rightarrow> 'v test_outcome \<Rightarrow> string" where
  "threshold_line str_value histo_name t =
     histo_name @ '','' @ test_name t @ '','' @ str_value (test_value t) @ [CHR 0x0A]"

text \<open>The names of a list that are not in both of two lists \<open>b0\<close> and \<open>b1\<close>.\<close>

definition differing :: "string list \<Rightarrow> string list \<Rightarrow> string list \<Rightarrow> string list" where
  "differing b0 b1 histos = filter (\<lambda>h. h \<notin> set b0 \<inter> set b1) histos"

text \<open>
  The example of the specification for the comparison of two runs: run A has \<open>H1\<close>
  and \<open>H2\<close> at \<open>WARNING\<close>, run B has \<open>H2\<close> and \<open>H3\<close> at \<open>WARNING\<close>.
\<close>

definition summary_outcome :: "string \<Rightarrow> rat test_outcome" where
  "summary_outcome r =
     \<lparr>test_name = ''test_summary'', result = r, comparable = False,
      test_value = 0, test_threshold = 0, name = None,
      type_global = None, type_specific = None, rel_path_plot = None\<rparr>"

definition example_run_a :: "rat summary" where
  "example_run_a =
     [(''H1'', [summary_outcome ''WARNING'']), (''H2'', [summary_outcome ''WARNING''])]"

definition example_run_b :: "rat summary" where
  "example_run_b =
     [(''H2'', [summary_outcome ''WARNING'']), (''H3'', [summary_outcome ''WARNING''])]"

definition example_read :: "string \<Rightarrow> rat summary option" where
  "example_read path =
     (if path = ''runA/SummaryGlobal.json'' then Some example_run_a
      else if path = ''runB/SummaryGlobal.json'' then Some example_run_b
      else None)"

text \<open>
  The argument namespace that \<open>main\<close> builds for the \<open>compare\<close> sub-command: the
  parent parser contributes \<open>input1\<close> and \<open>input2\<close>, the sub-parser \<open>output\<close>,
  \<open>difference\<close> and \<open>compare_values\<close>. The fields \<open>compare_input1\<close>,
  \<open>compare_input2\<close> and \<open>compare_output\<close> are the first three. No option has the
  destination \<open>input\<close>.
\<close>

record compare_args =
  compare_input1 :: "string list"
  compare_input2 :: "string list"
  compare_output :: string
  difference :: bool
  compare_values :: bool

text \<open>
  The attribute access \<open>args.input\<close> on that namespace: it has no such attribute, so
  the access raises \<open>AttributeError\<close>.
\<close>

definition args_input :: "compare_args \<Rightarrow> py_error + string list" where
  "args_input args = Inl AttributeError"

text \<open>
  The \<open>if args.compare_values\<close> branch of \<open>compare\<close>. Its first statement reads
  \<open>args.input[0]\<close> and \<open>args.input[1]\<close>; the statements after it draw plots and
  contribute nothing to the returned value, they are not modelled.
\<close>

definition compare_values_branch :: "compare_args \<Rightarrow> py_error + unit" where
  "compare_values_branch args =
     (case args_input args of
        Inl e \<Rightarrow> Inl e
      | Inr inputs \<Rightarrow> (case inputs of i0 # i1 # _ \<Rightarrow> Inr () | _ \<Rightarrow> Inl IndexError))"

text \<open>
  \<open>compare(args)\<close>: when neither flag is given both are set; the plotting branch comes
  first, then the difference branch; the function returns 0 at its end.
\<close>

definition compare ::
  "(string \<Rightarrow> 'v summary option) \<Rightarrow> compare_args
     \<Rightarrow> py_error + (nat \<times> (string \<times> string list list) list)"
where
  "compare read_summary args =
     (let flags = (if \<not> difference args \<and> \<not> compare_values args
                   then args\<lparr>difference := True, compare_values := True\<rparr>
                   else args)
      in case (if compare_values flags then compare_values_branch flags else Inr ()) of
           Inl e \<Rightarrow> Inl e
         | Inr _ \<Rightarrow>
             if difference flags
             then (case args_input flags of
                     Inl e \<Rightarrow> Inl e
                   | Inr inputs \<Rightarrow> difference_branch read_summary inputs)
             else Inr (0, []))"

text \<open>
  The call \<open>compare -i runA -j runB --difference\<close> on the two example runs.
\<close>

definition example_compare_args :: compare_args where
  "example_compare_args =
     \<lparr>compare_input1 = [''runA''], compare_input2 = [''runB''],
      compare_output = ''rel_val_comparison'', difference = True, compare_values = False\<rparr>"

subsection \<open>\<open>find_mutual_files\<close>\<close>

text \<open>
  The file system enters through \<open>glob\<close>: the list of paths that
  \<open>glob(pattern, recursive=True)\<close> returns for a pattern. Strings are compared as
  Python compares them, character by character.
\<close>

text \<open>\<open>s.lstrip("/")\<close>.\<close>

definition lstrip_slash :: "string \<Rightarrow> string" where
  "lstrip_slash s = dropWhile (\<lambda>c. c = CHR ''/'') s"

text \<open>
  The first two loops of \<open>find_mutual_files\<close> for one directory \<open>d\<close>: the glob
  result is sorted and every path loses its first \<open>len(d)\<close> characters and the
  slashes that follow.
\<close>

definition relative_files :: "(string \<Rightarrow> string list) \<Rightarrow> string \<Rightarrow> string \<Rightarrow> string list" where
  "relative_files glob glob_pattern d =
     map (\<lambda>p. lstrip_slash (drop (length d) p)) (sort (glob (d @ ''/**/'' @ glob_pattern)))"

text \<open>The loop \<open>for f in files[1:]: intersection = list(set(intersection) & set(f))\<close>.\<close>

fun intersection_loop :: "string list \<Rightarrow> string list list \<Rightarrow> string list" where
  "intersection_loop intersection [] = intersection"
| "intersection_loop intersection (f # files) =
     intersection_loop (set_intersection intersection f) files"

text \<open>The value of \<open>intersection\<close> before the grep patterns are applied.\<close>

definition mutual_files :: "(string \<Rightarrow> string list) \<Rightarrow> string list \<Rightarrow> string \<Rightarrow> string list" where
  "mutual_files glob dirs glob_pattern =
     (case map (relative_files glob glob_pattern) dirs of
        [] \<Rightarrow> []
      | f # files \<Rightarrow> intersection_loop f files)"

text \<open>\<open>g in ic\<close> on strings: \<open>g\<close> occurs in \<open>ic\<close> as a contiguous substring.\<close>

fun is_in :: "string \<Rightarrow> string \<Rightarrow> bool" where
  "is_in g [] = (g = [])"
| "is_in g (c # cs) = (take (length g) (c # cs) = g \<or> is_in g cs)"

text \<open>The loops \<open>for g in grep: for ic in intersection_cache: if g in ic: ...\<close>.\<close>

fun grep_cache_loop :: "string \<Rightarrow> string list \<Rightarrow> string list \<Rightarrow> string list" where
  "grep_cache_loop g [] intersection = intersection"
| "grep_cache_loop g (ic # cache) intersection =
     (if is_in g ic then grep_cache_loop g cache (intersection @ [ic])
      else grep_cache_loop g cache intersection)"

fun grep_loop :: "string list \<Rightarrow> string list \<Rightarrow> string list \<Rightarrow> string list" where
  "grep_loop [] intersection_cache intersection = intersection"
| "grep_loop (g # grep) intersection_cache intersection =
     grep_loop grep intersection_cache (grep_cache_loop g intersection_cache intersection)"

text \<open>
  \<open>find_mutual_files(dirs, glob_pattern, grep=...)\<close>. The keyword argument is \<open>None\<close>
  when it is not given; \<open>if grep\<close> is false for \<open>None\<close> and for the empty list.
\<close>

definition find_mutual_files ::
  "(string \<Rightarrow> string list) \<Rightarrow> string list \<Rightarrow> string \<Rightarrow> string list option \<Rightarrow> string list"
where
  "find_mutual_files glob dirs glob_pattern grep =
     (if dirs = [] then []
      else
        (let intersection = mutual_files glob dirs glob_pattern in
         case grep of
           None \<Rightarrow> sort intersection
         | Some gs \<Rightarrow>
             if gs = [] then sort intersection
             else sort (grep_loop gs intersection [])))"

text \<open>
  An example tree pair: both trees hold \<open>ab.root\<close> and \<open>c.root\<close>, and tree \<open>A\<close>
  also holds \<open>only.root\<close>.
\<close>

definition example_glob :: "string \<Rightarrow> string list" where
  "example_glob pattern =
     (if pattern = ''A/**/*.root'' then [''A/c.root'', ''A/ab.root'', ''A/only.root'']
      else if pattern = ''B/**/*.root'' then [''B/ab.root'', ''B/c.root'']
      else [])"

subsection \<open>\<open>file_sizes\<close>\<close>

text \<open>
  The dictionary that \<open>file_sizes\<close> returns; \<open>files\<close> is a dict from path to the sizes
  of the file in every directory.
\<close>

record collect_dict =
  directories :: "string list"
  files :: "(string \<times> int list) list"
  collect_threshold :: rat

text \<open>
  The loop \<open>for i, f in enumerate(intersection)\<close> of \<open>file_sizes\<close>: \<open>sizes\<close> holds
  one list per directory, \<open>compare_sizes\<close> is row \<open>i\<close> of it, and the path is recorded
  when the check returns a non-empty list. The table that the function prints is not
  part of the returned value.
\<close>

fun file_sizes_loop ::
  "int list list \<Rightarrow> rat \<Rightarrow> (nat \<times> string) list \<Rightarrow> (string \<times> int list) list
     \<Rightarrow> py_error + (string \<times> int list) list"
where
  "file_sizes_loop sizes threshold [] collected = Inr collected"
| "file_sizes_loop sizes threshold ((i, f) # rest) collected =
     (let compare_sizes = map (\<lambda>s. s ! i) sizes in
      case exceeding_difference_thresh compare_sizes threshold of
        Inl e \<Rightarrow> Inl e
      | Inr diff_indices \<Rightarrow>
          if diff_indices \<noteq> []
          then file_sizes_loop sizes threshold rest (AList.update f compare_sizes collected)
          else file_sizes_loop sizes threshold rest collected)"

text \<open>
  \<open>file_sizes(dirs, threshold)\<close>; \<open>st_size\<close> is the file system, the size in bytes of
  the file at a path.
\<close>

definition file_sizes ::
  "(string \<Rightarrow> string list) \<Rightarrow> (string \<Rightarrow> int) \<Rightarrow> string list \<Rightarrow> rat \<Rightarrow> py_error + collect_dict"
where
  "file_sizes glob st_size dirs threshold =
     (let intersection = find_mutual_files glob dirs ''*.root'' None;
          sizes = map (\<lambda>d. map (\<lambda>f. st_size (join d f)) intersection) dirs
      in case file_sizes_loop sizes threshold (enumerate 0 intersection) [] of
           Inl e \<Rightarrow> Inl e
         | Inr collected \<Rightarrow>
             Inr \<lparr>directories = dirs, files = collected, collect_threshold = threshold\<rparr>)"

subsection \<open>\<open>make_summary\<close>\<close>

text \<open>\<open>s.split(c)\<close> for a separator of one character, and \<open>sep.join(parts)\<close>.\<close>

fun split_sep :: "char \<Rightarrow> string \<Rightarrow> string list" where
  "split_sep c [] = [ [] ]"
| "split_sep c (x # xs) =
     (if x = c then [] # split_sep c xs
      else (case split_sep c xs of [] \<Rightarrow> [ [x] ] | w # ws \<Rightarrow> (x # w) # ws))"

fun join_sep :: "string \<Rightarrow> string list \<Rightarrow> string" where
  "join_sep sep [] = []"
| "join_sep sep [w] = w"
| "join_sep sep (w # v # ws) = w @ sep @ join_sep sep (v # ws)"

text \<open>
  The four assignments that \<open>make_summary\<close> makes to a test of the histogram
  \<open>histo_name\<close> read from the file \<open>path\<close>. \<open>relpath\<close> is \<open>os.path.relpath\<close>, a
  parameter. \<open>split\<close> never returns an empty list, so \<open>[0]\<close> always reads its first
  element.
\<close>

definition annotate ::
  "(string \<Rightarrow> string \<Rightarrow> string) \<Rightarrow> string \<Rightarrow> string \<Rightarrow> string
     \<Rightarrow> 'v test_outcome \<Rightarrow> 'v test_outcome"
where
  "annotate relpath in_dir path histo_name test =
     (let rel_val_path = join_sep ''/'' (butlast (split_sep (CHR ''/'') path));
          type_specific_v = relpath rel_val_path in_dir;
          rel_path_plot_v = join type_specific_v ''overlayPlots'';
          type_global_v = (case split_sep (CHR ''/'') type_specific_v of [] \<Rightarrow> [] | w # _ \<Rightarrow> w)
      in test\<lparr>name := Some histo_name,
               type_global := Some type_global_v,
               type_specific := Some type_specific_v,
               rel_path_plot := Some (join rel_path_plot_v (histo_name @ ''.png''))\<rparr>)"

text \<open>
  The loop \<open>for histo_name, tests in current_summary.items()\<close>. The assignment
  \<open>summary[histo_name] = tests\<close> stores a reference to the list whose elements the
  inner loop then changes in place, so the summary holds the annotated tests. A key
  that is already in \<open>summary\<close> keeps its position and gets the new value; a new key
  goes to the end.
\<close>

fun make_summary_items ::
  "(string \<Rightarrow> string \<Rightarrow> string) \<Rightarrow> string \<Rightarrow> string \<Rightarrow> 'v summary \<Rightarrow> 'v summary \<Rightarrow> 'v summary"
where
  "make_summary_items relpath in_dir path [] summary = summary"
| "make_summary_items relpath in_dir path ((histo_name, tests) # items) summary =
     make_summary_items relpath in_dir path items
       (AList.update histo_name (map (annotate relpath in_dir path histo_name) tests) summary)"

text \<open>The loop \<open>for path in file_paths\<close>; \<open>load\<close> is \<open>json.load\<close> of the file at a path.\<close>

fun make_summary_paths ::
  "(string \<Rightarrow> 'v summary) \<Rightarrow> (string \<Rightarrow> string \<Rightarrow> string) \<Rightarrow> string \<Rightarrow> string list
     \<Rightarrow> 'v summary \<Rightarrow> 'v summary"
where
  "make_summary_paths load relpath in_dir [] summary = summary"
| "make_summary_paths load relpath in_dir (path # file_paths) summary =
     make_summary_paths load relpath in_dir file_paths
       (make_summary_items relpath in_dir path (load path) summary)"

definition make_summary ::
  "(string \<Rightarrow> string list) \<Rightarrow> (string \<Rightarrow> 'v summary) \<Rightarrow> (string \<Rightarrow> string \<Rightarrow> string)
     \<Rightarrow> string \<Rightarrow> 'v summary"
where
  "make_summary glob load relpath in_dir =
     make_summary_paths load relpath in_dir (glob (in_dir @ ''/**/Summary.json'')) []"

text \<open>
  An example output tree: two groups that both report the histogram \<open>H1\<close>. The
  example \<open>relpath\<close> removes the prefix \<open>out/\<close>.
\<close>

definition example_summary_glob :: "string \<Rightarrow> string list" where
  "example_summary_glob pattern =
     (if pattern = ''out/**/Summary.json''
      then [''out/hits/its/Summary.json'', ''out/kine/Summary.json'']
      else [])"

definition example_load :: "string \<Rightarrow> rat summary" where
  "example_load path =
     (if path = ''out/hits/its/Summary.json''
      then [(''H1'', [summary_outcome ''GOOD'']), (''H2'', [summary_outcome ''BAD''])]
      else if path = ''out/kine/Summary.json''
      then [(''H1'', [summary_outcome ''WARNING''])]
      else [])"

definition example_relpath :: "string \<Rightarrow> string \<Rightarrow> string" where
  "example_relpath path start = drop (length start + 1) path"

text \<open>
  The example tree after \<open>rel_val\<close> has written the result of \<open>make_summary\<close> to
  \<open>out/SummaryGlobal.json\<close>.
\<close>

definition example_summary_glob2 :: "string \<Rightarrow> string list" where
  "example_summary_glob2 pattern =
     (if pattern = ''out/**/SummaryGlobal.json'' then [''out/SummaryGlobal.json'']
      else example_summary_glob pattern)"

definition example_load2 :: "string \<Rightarrow> rat summary" where
  "example_load2 path =
     (if path = ''out/SummaryGlobal.json''
      then make_summary example_summary_glob example_load example_relpath ''out''
      else example_load path)"

subsection \<open>\<open>rel_val_sim_dirs\<close>\<close>

text \<open>
  The attributes of the argument namespace of the \<open>rel-val\<close> sub-command that
  \<open>rel_val_sim_dirs\<close> reads. The list options are \<open>None\<close> when the option is not
  given; \<open>args_output\<close> is the attribute \<open>output\<close>. The namespace has no attribute
  \<open>dir\<close>.
\<close>

record rel_val_args =
  input1 :: "string list"
  input2 :: "string list"
  threshold :: rat
  dir_config :: string
  dir_config_enable :: "string list option"
  dir_config_disable :: "string list option"
  args_output :: string

text \<open>The truth value of an optional list: \<open>None\<close> and the empty list are false.\<close>

definition truthy :: "'a list option \<Rightarrow> bool" where
  "truthy x = (case x of None \<Rightarrow> False | Some xs \<Rightarrow> xs \<noteq> [])"

definition list_of :: "'a list option \<Rightarrow> 'a list" where
  "list_of x = (case x of None \<Rightarrow> [] | Some xs \<Rightarrow> xs)"

text \<open>
  The comprehension
  \<open>[rok for rok in run_over_keys if rok not in args.dir-dir_config_disable]\<close>. Its
  condition is the subtraction \<open>args.dir - dir_config_disable\<close>; the left operand is
  evaluated first and raises \<open>AttributeError\<close>, since the namespace has no attribute
  \<open>dir\<close>. The condition is evaluated for the first key, so the comprehension returns
  only for an empty list of keys.
\<close>

fun disable_comprehension :: "rel_val_args \<Rightarrow> string list \<Rightarrow> py_error + string list" where
  "disable_comprehension args [] = Inr []"
| "disable_comprehension args (rok # run_over_keys) = Inl AttributeError"

text \<open>
  A directory configuration as loaded from JSON: group name to (name to glob pattern),
  in key order.
\<close>

type_synonym dir_configuration = "(string \<times> (string \<times> string) list) list"

text \<open>The computation of \<open>run_over_keys\<close> in \<open>rel_val_sim_dirs\<close>.\<close>

definition run_over_keys :: "rel_val_args \<Rightarrow> dir_configuration \<Rightarrow> py_error + string list" where
  "run_over_keys args config =
     (let keys = map fst config;
          keys = (if truthy (dir_config_enable args)
                  then filter (\<lambda>rok. rok \<in> set (list_of (dir_config_enable args))) keys
                  else keys)
      in if truthy (dir_config_disable args) then disable_comprehension args keys
         else Inr keys)"

text \<open>
  What the help text of \<open>--dir-config-enable\<close> and \<open>--dir-config-disable\<close> describes:
  the keys of the configuration, restricted to the enabled ones when an enable-list is
  given, without the disabled ones.
\<close>

definition documented_keys :: "rel_val_args \<Rightarrow> dir_configuration \<Rightarrow> string list" where
  "documented_keys args config =
     filter (\<lambda>rok. rok \<notin> set (list_of (dir_config_disable args)))
       (if truthy (dir_config_enable args)
        then filter (\<lambda>rok. rok \<in> set (list_of (dir_config_enable args))) (map fst config)
        else map fst config)"

text \<open>One call \<open>rel_val_files(in1, in2, args, current_output_dir)\<close>.\<close>

record comparison_task =
  in1 :: "string list"
  in2 :: "string list"
  current_output_dir :: string

text \<open>
  The loop \<open>for name, path in current_dir_config.items()\<close>, collecting the calls of
  \<open>rel_val_files\<close>; a pattern without mutual files is skipped.
\<close>

fun dir_config_loop ::
  "(string \<Rightarrow> string list) \<Rightarrow> string \<Rightarrow> string \<Rightarrow> string \<Rightarrow> string
     \<Rightarrow> (string \<times> string) list \<Rightarrow> comparison_task list \<Rightarrow> comparison_task list"
where
  "dir_config_loop glob dir1 dir2 output_dir rok [] tasks = tasks"
| "dir_config_loop glob dir1 dir2 output_dir rok ((nm, path) # items) tasks =
     (let current_files = find_mutual_files glob [dir1, dir2] path None in
      if current_files = [] then dir_config_loop glob dir1 dir2 output_dir rok items tasks
      else dir_config_loop glob dir1 dir2 output_dir rok items
             (tasks @ [\<lparr>in1 = map (join dir1) current_files,
                         in2 = map (join dir2) current_files,
                         current_output_dir = join (join output_dir rok) nm\<rparr>]))"

text \<open>The loop \<open>for rok in run_over_keys\<close>; \<open>config[rok]\<close> is a dict lookup.\<close>

fun keys_loop ::
  "(string \<Rightarrow> string list) \<Rightarrow> string \<Rightarrow> string \<Rightarrow> string \<Rightarrow> dir_configuration
     \<Rightarrow> string list \<Rightarrow> comparison_task list \<Rightarrow> py_error + comparison_task list"
where
  "keys_loop glob dir1 dir2 output_dir config [] tasks = Inr tasks"
| "keys_loop glob dir1 dir2 output_dir config (rok # roks) tasks =
     (case getitem config rok of
        Inl e \<Rightarrow> Inl e
      | Inr current_dir_config \<Rightarrow>
          keys_loop glob dir1 dir2 output_dir config roks
            (dir_config_loop glob dir1 dir2 output_dir rok current_dir_config tasks))"

text \<open>
  The result of \<open>rel_val_sim_dirs\<close>: the dictionary written to \<open>file_sizes.json\<close>,
  the calls of \<open>rel_val_files\<close> in order, and the returned code.
\<close>

record sim_dirs_result =
  file_sizes_to_json :: collect_dict
  tasks_run :: "comparison_task list"
  return_code :: nat

text \<open>
  \<open>rel_val_sim_dirs(args)\<close>. The file system is \<open>glob\<close>, \<open>st_size\<close> and
  \<open>load_config\<close> (the JSON document at the path \<open>args.dir_config\<close>).
  \<open>args.input1[0]\<close> and \<open>args.input2[0]\<close> raise \<open>IndexError\<close> on an empty list.
\<close>

definition rel_val_sim_dirs ::
  "(string \<Rightarrow> string list) \<Rightarrow> (string \<Rightarrow> int) \<Rightarrow> (string \<Rightarrow> dir_configuration)
     \<Rightarrow> rel_val_args \<Rightarrow> py_error + sim_dirs_result"
where
  "rel_val_sim_dirs glob st_size load_config args =
     (case input1 args of
        [] \<Rightarrow> Inl IndexError
      | dir1 # _ \<Rightarrow>
     (case input2 args of
        [] \<Rightarrow> Inl IndexError
      | dir2 # _ \<Rightarrow>
     (case file_sizes glob st_size [dir1, dir2] (1 / 2) of
        Inl e \<Rightarrow> Inl e
      | Inr sizes_json \<Rightarrow>
     (let config = load_config (dir_config args) in
      case run_over_keys args config of
        Inl e \<Rightarrow> Inl e
      | Inr keys \<Rightarrow>
          if keys = []
          then Inr \<lparr>file_sizes_to_json = sizes_json, tasks_run = [], return_code = 0\<rparr>
          else
            (case keys_loop glob dir1 dir2 (args_output args) config keys [] of
               Inl e \<Rightarrow> Inl e
             | Inr tasks \<Rightarrow>
                 Inr \<lparr>file_sizes_to_json = sizes_json, tasks_run = tasks,
                      return_code = 0\<rparr>)))))"

text \<open>
  An example run on the trees of \<open>example_glob\<close>: \<open>ab.root\<close> has 100 bytes in tree
  \<open>A\<close> and 201 bytes in tree \<open>B\<close>, \<open>c.root\<close> has 65 bytes in tree \<open>A\<close>, and every
  other file has 50 bytes. The arguments leave \<open>--threshold\<close> at its default.
\<close>

definition example_size :: "string \<Rightarrow> int" where
  "example_size path =
     (if path = ''A/ab.root'' then 100
      else if path = ''B/ab.root'' then 201
      else if path = ''A/c.root'' then 65
      else 50)"

definition example_config :: "string \<Rightarrow> dir_configuration" where
  "example_config path = [(''hits'', [(''its'', ''*.root'')]), (''kine'', [(''all'', ''*.txt'')])]"

definition example_args :: rel_val_args where
  "example_args =
     \<lparr>input1 = [''A''], input2 = [''B''], threshold = THRESHOLD_DEFAULT, dir_config = ''config.json'',
      dir_config_enable = None, dir_config_disable = None, args_output = ''rel_val''\<rparr>"

subsection \<open>Properties of the true division\<close>

lemma round_half_even_cases:
  "round_half_even x = \<lfloor>x\<rfloor> \<and> x - of_int \<lfloor>x\<rfloor> \<le> 1 / 2 \<or>
   round_half_even x = \<lfloor>x\<rfloor> + 1 \<and> 1 / 2 \<le> x - of_int \<lfloor>x\<rfloor>"
  unfolding round_half_even_def Let_def by simp

lemma round_half_even_near: "\<bar>of_int (round_half_even x) - x\<bar> \<le> 1 / 2"
proof -
  have f: "of_int \<lfloor>x\<rfloor> \<le> x" "x < of_int \<lfloor>x\<rfloor> + 1" by linarith+
  from round_half_even_cases [of x] show ?thesis
  proof
    assume "round_half_even x = \<lfloor>x\<rfloor> \<and> x - of_int \<lfloor>x\<rfloor> \<le> 1 / 2"
    with f show ?thesis by simp
  next
    assume "round_half_even x = \<lfloor>x\<rfloor> + 1 \<and> 1 / 2 \<le> x - of_int \<lfloor>x\<rfloor>"
    with f show ?thesis by simp
  qed
qed

lemma round_half_even_nonneg: "0 \<le> x \<Longrightarrow> 0 \<le> round_half_even x"
proof -
  assume "0 \<le> x"
  then have "0 \<le> \<lfloor>x\<rfloor>" by simp
  with round_half_even_cases [of x] show ?thesis by auto
qed

lemma quotient_exponent_le: "0 < b \<Longrightarrow> quotient_exponent a b \<le> bitlen a"
proof -
  have "0 \<le> bitlen b" by (rule bitlen_nonneg)
  then show ?thesis unfolding quotient_exponent_def Let_def by (auto; linarith?)
qed

lemma double_quotient_bound:
  assumes a: "0 \<le> a" "a < 2 ^ 63" and b: "0 < b"
  shows "0 \<le> double_quotient a b \<and> double_quotient a b < 2 ^ 1024"
proof (cases "a = 0")
  case True
  then show ?thesis by (simp add: double_quotient_def)
next
  case False
  define q :: rat where "q = of_int a / of_int b"
  define e where "e = quotient_exponent \<bar>a\<bar> \<bar>b\<bar>"
  define s :: rat where "s = 2 powi (max e (- 1022) - 52)"
  have dq: "double_quotient a b = of_int (round_half_even (q / s)) * s"
    using False by (simp add: double_quotient_def Let_def q_def e_def s_def)
  have s0: "0 < s" by (simp add: s_def)
  have "bitlen a \<le> 63" using a(2) by (simp add: bitlen_le_iff_power)
  moreover have "e \<le> bitlen a" using a b quotient_exponent_le [of b a] by (simp add: e_def)
  ultimately have "max e (- 1022) - 52 \<le> 11" by simp
  then have "s \<le> 2 powi 11" unfolding s_def by (intro power_int_increasing) simp_all
  then have s11: "s \<le> 2048" by simp
  have q0: "0 \<le> q" using a b by (simp add: q_def)
  have "of_int a \<le> (of_int a :: rat) * of_int b"
    using a(1) b by (simp add: mult_le_cancel_left1)
  then have "q \<le> of_int a" using b by (simp add: q_def pos_divide_le_eq)
  moreover have "(of_int a :: rat) < 2 ^ 63" using a(2) by (metis of_int_less_numeral_power_cancel_iff)
  ultimately have q63: "q < 2 ^ 63" by simp
  have "0 \<le> q / s" using q0 s0 by simp
  then have r0: "0 \<le> round_half_even (q / s)" by (rule round_half_even_nonneg)
  have "of_int (round_half_even (q / s)) \<le> q / s + 1 / 2"
    using round_half_even_near [of "q / s"] by linarith
  then have "of_int (round_half_even (q / s)) * s \<le> (q / s + 1 / 2) * s"
    using s0 by (simp add: mult_le_cancel_right)
  also have "\<dots> = q + s / 2" using s0 by (simp add: field_simps)
  also have "\<dots> < 2 ^ 63 + 1024" using q63 s11 by simp
  also have "\<dots> < 2 ^ 1024" by simp
  finally have "double_quotient a b < 2 ^ 1024" by (simp only: dq)
  moreover have "0 \<le> double_quotient a b" using r0 s0 by (simp add: dq)
  ultimately show ?thesis by simp
qed

lemma true_divide_zero: "true_divide a 0 = Inl ZeroDivisionError"
  by (simp add: true_divide_def)

lemma true_divide_nonzero:
  "b \<noteq> 0 \<Longrightarrow> true_divide a b = Inl OverflowError \<or> true_divide a b = Inr (double_quotient a b)"
  by (simp add: true_divide_def Let_def)

lemma true_divide_file_sizes:
  assumes "0 \<le> a" "a < 2 ^ 63" "0 < b"
  shows "true_divide a b = Inr (double_quotient a b)"
  using assms double_quotient_bound [OF assms] by (simp add: true_divide_def Let_def)

lemma bitlen_powi_bounds:
  assumes "0 < a"
  shows "(2 :: rat) powi (bitlen a - 1) \<le> of_int a" and "of_int a < (2 :: rat) powi bitlen a"
proof -
  from assms have l: "1 \<le> bitlen a" by (simp add: bitlen_ge_iff_power)
  have "(2 :: int) ^ nat (bitlen a - 1) \<le> a" and "a < 2 ^ nat (bitlen a)"
    using bitlen_bounds [OF assms] by simp_all
  then have "(of_int ((2 :: int) ^ nat (bitlen a - 1)) :: rat) \<le> of_int a"
    and "(of_int a :: rat) < of_int (2 ^ nat (bitlen a))"
    by (simp_all only: of_int_le_iff of_int_less_iff)
  then show "(2 :: rat) powi (bitlen a - 1) \<le> of_int a" and "of_int a < (2 :: rat) powi bitlen a"
    using l by (simp_all add: power_int_def)
qed

lemma quotient_exponent_bounds:
  assumes "0 < a" and "0 < b"
  shows "(2 :: rat) powi quotient_exponent a b \<le> of_int a / of_int b"
    and "of_int a / of_int b < (2 :: rat) powi (quotient_exponent a b + 1)"
proof -
  define q :: rat where "q = of_int a / of_int b"
  define e0 where "e0 = bitlen a - bitlen b"
  have b0: "(0 :: rat) < of_int b" using assms(2) by simp
  have a0: "(0 :: rat) < of_int a" using assms(1) by simp
  have pb: "(0 :: rat) < 2 powi (bitlen b - 1)" by simp
  have "q < 2 powi bitlen a / 2 powi (bitlen b - 1)"
    unfolding q_def
    using bitlen_powi_bounds(2) [OF assms(1)] bitlen_powi_bounds(1) [OF assms(2)] b0 a0 pb
    by (intro frac_less) simp_all
  also have "\<dots> = 2 powi (e0 + 1)"
    by (simp add: e0_def power_int_diff [symmetric] algebra_simps)
  finally have up: "q < 2 powi (e0 + 1)" .
  have "2 powi (bitlen a - 1) / 2 powi bitlen b \<le> q"
    unfolding q_def
    using bitlen_powi_bounds(1) [OF assms(1)] bitlen_powi_bounds(2) [OF assms(2)] b0 a0
    by (intro frac_le) simp_all
  moreover have "2 powi (bitlen a - 1) / 2 powi bitlen b = (2 :: rat) powi (e0 - 1)"
    by (simp add: e0_def power_int_diff [symmetric] algebra_simps)
  ultimately have low: "2 powi (e0 - 1) \<le> q" by simp
  show "(2 :: rat) powi quotient_exponent a b \<le> of_int a / of_int b"
    using low by (simp add: quotient_exponent_def Let_def q_def [symmetric] e0_def [symmetric])
  show "of_int a / of_int b < (2 :: rat) powi (quotient_exponent a b + 1)"
    using up by (auto simp: quotient_exponent_def Let_def q_def [symmetric] e0_def [symmetric] not_le)
qed

lemma double_quotient_near:
  assumes "a \<noteq> 0"
  shows "\<bar>double_quotient a b - of_int a / of_int b\<bar>
           \<le> 2 powi (max (quotient_exponent \<bar>a\<bar> \<bar>b\<bar>) (- 1022) - 52) / 2"
proof -
  define s :: rat where "s = 2 powi (max (quotient_exponent \<bar>a\<bar> \<bar>b\<bar>) (- 1022) - 52)"
  define q :: rat where "q = of_int a / of_int b"
  have s0: "0 < s" by (simp add: s_def)
  have dq: "double_quotient a b = of_int (round_half_even (q / s)) * s"
    using assms by (simp add: double_quotient_def Let_def q_def s_def)
  have "of_int (round_half_even (q / s)) * s - q = (of_int (round_half_even (q / s)) - q / s) * s"
    using s0 by (simp add: left_diff_distrib)
  then have "\<bar>of_int (round_half_even (q / s)) * s - q\<bar> =
      \<bar>of_int (round_half_even (q / s)) - q / s\<bar> * s"
    using s0 by (simp only: abs_mult)
  also have "\<dots> \<le> 1 / 2 * s"
    using round_half_even_near [of "q / s"] s0 by (intro mult_right_mono) simp_all
  finally show ?thesis by (simp add: dq q_def [symmetric] s_def [symmetric])
qed

subsection \<open>Properties of the size-divergence check\<close>

lemma in_combinations2: "(a, b) \<in> set (combinations2 n) \<longleftrightarrow> a < b \<and> b < n"
  unfolding combinations2_def by (simp add: image_iff) arith

lemma exceeding_loop_ok:
  "\<forall>p \<in> set ps. true_divide \<bar>sizes ! fst p - sizes ! snd p\<bar> (sizes ! snd p) =
      Inr (double_quotient \<bar>sizes ! fst p - sizes ! snd p\<bar> (sizes ! snd p)) \<Longrightarrow>
   exceeding_loop sizes thr ps acc = Inr (acc @ filter (exceeds sizes thr) ps)"
  by (induction ps arbitrary: acc) (auto simp: exceeds_def Let_def)

lemma exceeding_loop_returns:
  "exceeding_loop sizes thr ps acc = Inr flagged \<Longrightarrow> \<forall>p \<in> set ps. sizes ! snd p \<noteq> 0"
proof (induction ps arbitrary: acc)
  case Nil
  then show ?case by simp
next
  case (Cons p ps)
  obtain i1 i2 where p: "p = (i1, i2)" by (cases p)
  from Cons.prems have nz: "sizes ! i2 \<noteq> 0"
    by (auto simp: p Let_def true_divide_zero)
  from Cons.prems obtain acc' where "exceeding_loop sizes thr ps acc' = Inr flagged"
    by (auto simp: p Let_def split: sum.splits if_splits)
  then have "\<forall>p \<in> set ps. sizes ! snd p \<noteq> 0" by (rule Cons.IH)
  with nz show ?case by (simp add: p)
qed

lemma exceeding_loop_no_zero:
  "\<forall>p \<in> set ps. sizes ! snd p \<noteq> 0 \<Longrightarrow>
   exceeding_loop sizes thr ps acc \<noteq> Inl ZeroDivisionError"
proof (induction ps arbitrary: acc)
  case Nil
  then show ?case by simp
next
  case (Cons p ps)
  obtain i1 i2 where p: "p = (i1, i2)" by (cases p)
  from Cons.prems have nz: "sizes ! i2 \<noteq> 0" by (simp add: p)
  from Cons.prems have rest: "\<And>a. exceeding_loop sizes thr ps a \<noteq> Inl ZeroDivisionError"
    by (intro Cons.IH) simp
  from true_divide_nonzero [OF nz, of "\<bar>sizes ! i1 - sizes ! i2\<bar>"] show ?case
  proof
    assume "true_divide \<bar>sizes ! i1 - sizes ! i2\<bar> (sizes ! i2) = Inl OverflowError"
    then show ?thesis by (simp add: p Let_def)
  next
    assume "true_divide \<bar>sizes ! i1 - sizes ! i2\<bar> (sizes ! i2) =
        Inr (double_quotient \<bar>sizes ! i1 - sizes ! i2\<bar> (sizes ! i2))"
    then show ?thesis using rest by (simp add: p Let_def)
  qed
qed

lemma exceeding_loop_zero:
  "\<exists>p \<in> set ps. sizes ! snd p = 0 \<Longrightarrow>
   \<forall>p \<in> set ps. sizes ! snd p \<noteq> 0 \<longrightarrow>
      true_divide \<bar>sizes ! fst p - sizes ! snd p\<bar> (sizes ! snd p) =
        Inr (double_quotient \<bar>sizes ! fst p - sizes ! snd p\<bar> (sizes ! snd p)) \<Longrightarrow>
   exceeding_loop sizes thr ps acc = Inl ZeroDivisionError"
proof (induction ps arbitrary: acc)
  case Nil
  then show ?case by simp
next
  case (Cons p ps)
  obtain i1 i2 where p: "p = (i1, i2)" by (cases p)
  show ?case
  proof (cases "sizes ! i2 = 0")
    case True
    then show ?thesis by (simp add: p true_divide_zero)
  next
    case False
    with Cons.prems(1) p have "\<exists>q \<in> set ps. sizes ! snd q = 0" by auto
    moreover from Cons.prems(2) have "\<forall>p \<in> set ps. sizes ! snd p \<noteq> 0 \<longrightarrow>
      true_divide \<bar>sizes ! fst p - sizes ! snd p\<bar> (sizes ! snd p) =
        Inr (double_quotient \<bar>sizes ! fst p - sizes ! snd p\<bar> (sizes ! snd p))" by simp
    ultimately have "\<And>a. exceeding_loop sizes thr ps a = Inl ZeroDivisionError"
      by (rule Cons.IH)
    moreover from Cons.prems(2) False
    have "true_divide \<bar>sizes ! i1 - sizes ! i2\<bar> (sizes ! i2) =
        Inr (double_quotient \<bar>sizes ! i1 - sizes ! i2\<bar> (sizes ! i2))"
      by (simp add: p)
    ultimately show ?thesis by (simp add: p Let_def)
  qed
qed

lemma second_elements:
  "(\<exists>p \<in> set (combinations2 n). sizes ! snd p = (0::int)) \<longleftrightarrow> (\<exists>j. 0 < j \<and> j < n \<and> sizes ! j = 0)"
proof
  assume "\<exists>p \<in> set (combinations2 n). sizes ! snd p = 0"
  then obtain i1 i2 where "(i1, i2) \<in> set (combinations2 n)" "sizes ! i2 = 0" by auto
  then have "0 < i2 \<and> i2 < n \<and> sizes ! i2 = 0" by (simp add: in_combinations2)
  then show "\<exists>j. 0 < j \<and> j < n \<and> sizes ! j = 0" by blast
next
  assume "\<exists>j. 0 < j \<and> j < n \<and> sizes ! j = 0"
  then obtain j where j: "0 < j" "j < n" "sizes ! j = 0" by blast
  then have "(0, j) \<in> set (combinations2 n)" by (simp add: in_combinations2)
  with j show "\<exists>p \<in> set (combinations2 n). sizes ! snd p = 0" by force
qed

lemma file_sizes_divide:
  assumes fs: "file_size_list sizes" and p: "(i1, i2) \<in> set (combinations2 (length sizes))"
    and nz: "sizes ! i2 \<noteq> 0"
  shows "true_divide \<bar>sizes ! i1 - sizes ! i2\<bar> (sizes ! i2) =
     Inr (double_quotient \<bar>sizes ! i1 - sizes ! i2\<bar> (sizes ! i2))"
proof -
  from p have i: "i1 < length sizes" "i2 < length sizes" by (simp_all add: in_combinations2)
  from fs i have 1: "0 \<le> sizes ! i1" "sizes ! i1 < 2 ^ 63" "0 \<le> sizes ! i2" "sizes ! i2 < 2 ^ 63"
    by (simp_all add: file_size_list_def list_all_length)
  then have "0 \<le> \<bar>sizes ! i1 - sizes ! i2\<bar>" and "\<bar>sizes ! i1 - sizes ! i2\<bar> < 2 ^ 63"
    and "0 < sizes ! i2"
    using nz by simp_all
  then show ?thesis by (rule true_divide_file_sizes)
qed

lemma no_zero_pairs:
  assumes "\<forall>j. 0 < j \<and> j < length sizes \<longrightarrow> sizes ! j \<noteq> (0::int)"
  shows "\<forall>p \<in> set (combinations2 (length sizes)). sizes ! snd p \<noteq> 0"
proof -
  have "\<not> (\<exists>p \<in> set (combinations2 (length sizes)). sizes ! snd p = 0)"
    using assms unfolding second_elements by blast
  then show ?thesis by blast
qed

lemma exceeding_difference_thresh_ok:
  assumes "file_size_list sizes"
    and "\<forall>j. 0 < j \<and> j < length sizes \<longrightarrow> sizes ! j \<noteq> 0"
  shows "exceeding_difference_thresh sizes thr =
           Inr (filter (exceeds sizes thr) (combinations2 (length sizes)))"
proof -
  have nz: "\<forall>p \<in> set (combinations2 (length sizes)). sizes ! snd p \<noteq> 0"
    using assms(2) by (rule no_zero_pairs)
  have "\<forall>p \<in> set (combinations2 (length sizes)).
      true_divide \<bar>sizes ! fst p - sizes ! snd p\<bar> (sizes ! snd p) =
        Inr (double_quotient \<bar>sizes ! fst p - sizes ! snd p\<bar> (sizes ! snd p))"
  proof
    fix p assume p: "p \<in> set (combinations2 (length sizes))"
    obtain i1 i2 where e: "p = (i1, i2)" by (cases p)
    from p nz have "sizes ! i2 \<noteq> 0" by (auto simp: e)
    with assms(1) p show "true_divide \<bar>sizes ! fst p - sizes ! snd p\<bar> (sizes ! snd p) =
        Inr (double_quotient \<bar>sizes ! fst p - sizes ! snd p\<bar> (sizes ! snd p))"
      by (simp add: e file_sizes_divide)
  qed
  then show ?thesis
    unfolding exceeding_difference_thresh_def by (simp add: exceeding_loop_ok)
qed

lemma exceeding_difference_thresh_zero:
  assumes "file_size_list sizes"
    and "\<exists>j. 0 < j \<and> j < length sizes \<and> sizes ! j = 0"
  shows "exceeding_difference_thresh sizes thr = Inl ZeroDivisionError"
proof -
  have z: "\<exists>p \<in> set (combinations2 (length sizes)). sizes ! snd p = 0"
    using assms(2) unfolding second_elements .
  have "\<forall>p \<in> set (combinations2 (length sizes)). sizes ! snd p \<noteq> 0 \<longrightarrow>
      true_divide \<bar>sizes ! fst p - sizes ! snd p\<bar> (sizes ! snd p) =
        Inr (double_quotient \<bar>sizes ! fst p - sizes ! snd p\<bar> (sizes ! snd p))"
  proof (intro ballI impI)
    fix p assume p: "p \<in> set (combinations2 (length sizes))" and nz: "sizes ! snd p \<noteq> 0"
    obtain i1 i2 where e: "p = (i1, i2)" by (cases p)
    from assms(1) p nz show "true_divide \<bar>sizes ! fst p - sizes ! snd p\<bar> (sizes ! snd p) =
        Inr (double_quotient \<bar>sizes ! fst p - sizes ! snd p\<bar> (sizes ! snd p))"
      by (simp add: e file_sizes_divide)
  qed
  with z show ?thesis
    unfolding exceeding_difference_thresh_def by (rule exceeding_loop_zero)
qed

lemma exceeding_difference_thresh_returns:
  assumes "exceeding_difference_thresh sizes thr = Inr flagged"
  shows "\<forall>j. 0 < j \<and> j < length sizes \<longrightarrow> sizes ! j \<noteq> 0"
proof -
  from assms have "\<forall>p \<in> set (combinations2 (length sizes)). sizes ! snd p \<noteq> 0"
    unfolding exceeding_difference_thresh_def by (rule exceeding_loop_returns)
  then have "\<not> (\<exists>p \<in> set (combinations2 (length sizes)). sizes ! snd p = 0)" by blast
  then show ?thesis unfolding second_elements by blast
qed

lemma exceeding_difference_thresh_no_zero:
  assumes "\<forall>j. 0 < j \<and> j < length sizes \<longrightarrow> sizes ! j \<noteq> 0"
  shows "exceeding_difference_thresh sizes thr \<noteq> Inl ZeroDivisionError"
  unfolding exceeding_difference_thresh_def
  using no_zero_pairs [OF assms] by (rule exceeding_loop_no_zero)

text \<open>The boundary examples of the specification, at the threshold \<open>0.5\<close>.\<close>

lemma combinations2_two: "combinations2 (Suc (Suc 0)) = [(0, Suc 0)]"
  by (simp add: combinations2_def upt_rec)

lemma exceeding_example_equal: "exceeding_difference_thresh [100, 200] (1 / 2) = Inr []"
  by code_simp

lemma exceeding_example_above: "exceeding_difference_thresh [100, 201] (1 / 2) = Inr [(0, 1)]"
  by code_simp

text \<open>The ratio is not symmetric: swapping the two sizes changes the verdict.\<close>

lemma exceeding_example_swapped: "exceeding_difference_thresh [200, 100] (1 / 2) = Inr [(0, 1)]"
  by code_simp

text \<open>
  The float \<open>0.3\<close> is the double below \<open>3 / 10\<close>, and \<open>3 / 10\<close> on ints returns that
  same double.
\<close>

lemma double_three_tenths: "double_quotient 3 10 = 5404319552844595 / 2 ^ 54"
  by code_simp

text \<open>
  Claim C5, amended. For every list of file sizes in which no size at a second position
  of a pair is zero, and every threshold, \<open>exceeding_difference_thresh\<close> returns, and
  the returned list holds the index pair \<open>(i1, i2)\<close> exactly when \<open>i1 < i2\<close> are indices
  of the list and the quotient \<open>|sizes[i1] - sizes[i2]| / sizes[i2]\<close> as Python computes
  it, the double nearest to the exact ratio, is strictly greater than the threshold:
  the denominator is the size at the second index, and a computed quotient equal to the
  threshold is not flagged.
\<close>

theorem exceeding_difference_thresh_flags:
  assumes "file_size_list sizes"
    and "\<forall>j. 0 < j \<and> j < length sizes \<longrightarrow> sizes ! j \<noteq> 0"
  shows "\<exists>flagged. exceeding_difference_thresh sizes thr = Inr flagged \<and>
           (\<forall>i1 i2. (i1, i2) \<in> set flagged \<longleftrightarrow>
              i1 < i2 \<and> i2 < length sizes \<and>
              thr < double_quotient \<bar>sizes ! i1 - sizes ! i2\<bar> (sizes ! i2))"
proof -
  let ?flagged = "filter (exceeds sizes thr) (combinations2 (length sizes))"
  have "exceeding_difference_thresh sizes thr = Inr ?flagged"
    using assms by (rule exceeding_difference_thresh_ok)
  moreover have "(i1, i2) \<in> set ?flagged \<longleftrightarrow>
      i1 < i2 \<and> i2 < length sizes \<and>
      thr < double_quotient \<bar>sizes ! i1 - sizes ! i2\<bar> (sizes ! i2)" for i1 i2
    by (simp add: in_combinations2 exceeds_def)
  ultimately show ?thesis by blast
qed

theorem exceeding_difference_thresh_flags_witness:
  "file_size_list [100, 201] \<and> [100, 201 :: int] ! 1 \<noteq> 0 \<and>
   (\<exists>flagged. exceeding_difference_thresh [100, 201] (1 / 2) = Inr flagged \<and>
      (\<forall>i1 i2. (i1, i2) \<in> set flagged \<longleftrightarrow>
         i1 < i2 \<and> i2 < length [100, 201 :: int] \<and>
         (1 / 2 :: rat) < double_quotient \<bar>[100, 201] ! i1 - [100, 201] ! i2\<bar> ([100, 201] ! i2)))"
proof -
  have f: "file_size_list [100, 201]" by (simp add: file_size_list_def)
  have h: "\<forall>j. 0 < j \<and> j < length [100, 201 :: int] \<longrightarrow> [100, 201 :: int] ! j \<noteq> 0"
    by (simp add: nth_Cons')
  show ?thesis
    using f exceeding_difference_thresh_flags [OF f h, of "1 / 2"] by simp
qed

text \<open>
  Claim C5 as stated fails: for the sizes \<open>(7, 10)\<close> and the threshold \<open>0.3\<close> the
  exact ratio \<open>3 / 10\<close> is greater than the threshold, a double just below
  \<open>3 / 10\<close>, but the computed quotient is that double and the pair is not flagged.
\<close>

theorem exceeding_difference_thresh_flags_counterexample:
  "exceeding_difference_thresh [7, 10] (5404319552844595 / 2 ^ 54) = Inr [] \<and>
   (5404319552844595 / 2 ^ 54 :: rat) < of_int \<bar>7 - 10\<bar> / of_int 10"
  by code_simp

text \<open>
  The same happens at the threshold \<open>0.5\<close> that \<open>rel_val_sim_dirs\<close> passes: the
  exact ratio of these two sizes is above one half and rounds to one half.
\<close>

lemma exceeding_example_half:
  "exceeding_difference_thresh [2 ^ 53 - 1, 2 ^ 54] (1 / 2) = Inr [] \<and>
   (1 / 2 :: rat) < of_int \<bar>(2 ^ 53 - 1) - 2 ^ 54\<bar> / of_int (2 ^ 54)"
  by code_simp

text \<open>
  Claim C10. The check divides by the size at the second index of each pair without a
  guard. On a list of file sizes it raises \<open>ZeroDivisionError\<close> exactly when some size
  at an index \<open>j \<ge> 1\<close> (the indices that occur as second element of a pair) is zero,
  and it returns a list when every such size is non-zero. On every list of ints it
  returns only if every such size is non-zero, and it does not raise
  \<open>ZeroDivisionError\<close> when every such size is non-zero. It does raise on the sizes
  \<open>(100, 0)\<close>, a file that is empty in the second tree.
\<close>

theorem exceeding_difference_thresh_division:
  "(file_size_list sizes \<longrightarrow>
      (exceeding_difference_thresh sizes thr = Inl ZeroDivisionError \<longleftrightarrow>
         (\<exists>j. 0 < j \<and> j < length sizes \<and> sizes ! j = 0)) \<and>
      ((\<forall>j. 0 < j \<and> j < length sizes \<longrightarrow> sizes ! j \<noteq> 0) \<longrightarrow>
         (\<exists>flagged. exceeding_difference_thresh sizes thr = Inr flagged))) \<and>
   ((\<exists>flagged. exceeding_difference_thresh sizes thr = Inr flagged) \<longrightarrow>
      (\<forall>j. 0 < j \<and> j < length sizes \<longrightarrow> sizes ! j \<noteq> 0)) \<and>
   ((\<forall>j. 0 < j \<and> j < length sizes \<longrightarrow> sizes ! j \<noteq> 0) \<longrightarrow>
      exceeding_difference_thresh sizes thr \<noteq> Inl ZeroDivisionError) \<and>
   exceeding_difference_thresh [100, 0] thr = Inl ZeroDivisionError"
proof (intro conjI impI)
  assume fs: "file_size_list sizes"
  show "exceeding_difference_thresh sizes thr = Inl ZeroDivisionError \<longleftrightarrow>
      (\<exists>j. 0 < j \<and> j < length sizes \<and> sizes ! j = 0)"
  proof (cases "\<exists>j. 0 < j \<and> j < length sizes \<and> sizes ! j = 0")
    case True
    with fs show ?thesis by (simp add: exceeding_difference_thresh_zero)
  next
    case False
    then have "\<forall>j. 0 < j \<and> j < length sizes \<longrightarrow> sizes ! j \<noteq> 0" by blast
    then have "exceeding_difference_thresh sizes thr \<noteq> Inl ZeroDivisionError"
      by (rule exceeding_difference_thresh_no_zero)
    with False show ?thesis by simp
  qed
next
  assume "file_size_list sizes" and "\<forall>j. 0 < j \<and> j < length sizes \<longrightarrow> sizes ! j \<noteq> 0"
  then show "\<exists>flagged. exceeding_difference_thresh sizes thr = Inr flagged"
    by (simp add: exceeding_difference_thresh_ok)
next
  assume "\<exists>flagged. exceeding_difference_thresh sizes thr = Inr flagged"
  then show "\<forall>j. 0 < j \<and> j < length sizes \<longrightarrow> sizes ! j \<noteq> 0"
    using exceeding_difference_thresh_returns by blast
next
  assume "\<forall>j. 0 < j \<and> j < length sizes \<longrightarrow> sizes ! j \<noteq> 0"
  then show "exceeding_difference_thresh sizes thr \<noteq> Inl ZeroDivisionError"
    by (rule exceeding_difference_thresh_no_zero)
next
  show "exceeding_difference_thresh [100, 0] thr = Inl ZeroDivisionError"
    by (simp add: exceeding_difference_thresh_def combinations2_two Let_def true_divide_zero)
qed

theorem exceeding_difference_thresh_division_witness:
  "file_size_list [100, 200] \<and> [100, 200 :: int] ! 1 \<noteq> 0 \<and>
   (\<exists>flagged. exceeding_difference_thresh [100, 200] (1 / 2) = Inr flagged) \<and>
   exceeding_difference_thresh [100, 200] (1 / 2) \<noteq> Inl ZeroDivisionError"
proof -
  have f: "file_size_list [100, 200]" by (simp add: file_size_list_def)
  have h: "\<forall>j. 0 < j \<and> j < length [100, 200 :: int] \<longrightarrow> [100, 200 :: int] ! j \<noteq> 0"
    by (simp add: nth_Cons')
  have "[100, 200 :: int] ! 1 \<noteq> 0" by simp
  then show ?thesis
    using f h exceeding_difference_thresh_division [of "[100, 200]" "1 / 2"] by blast
qed

subsection \<open>Properties of \<open>print_summary\<close>\<close>

lemma add_names_keys: "map fst (add_names f m) = map fst m"
  by (simp add: add_names_def comp_def)

lemma add_names_nil: "add_names (\<lambda>_. []) m = m"
  by (simp add: add_names_def)

lemma add_names_add_names: "add_names g (add_names f m) = add_names (\<lambda>s. f s @ g s) m"
  by (simp add: add_names_def)

lemma update_add_names:
  "distinct (map fst m) \<Longrightarrow> map_of m r = Some hs \<Longrightarrow>
   AList.update r (hs @ x) m = add_names (\<lambda>s. if s = r then x else []) m"
proof (induction m)
  case Nil
  then show ?case by simp
next
  case (Cons p m)
  show ?case
  proof (cases "fst p = r")
    case True
    with Cons.prems have "r \<notin> fst ` set m" and "snd p = hs" by auto
    then have "add_names (\<lambda>s. if s = r then x else []) m = m"
      by (induction m) (auto simp: add_names_def)
    with True \<open>snd p = hs\<close> show ?thesis by (cases p) (simp add: add_names_def)
  next
    case False
    with Cons show ?thesis by (cases p) (simp add: add_names_def)
  qed
qed

lemma summary_tests_loop_ok:
  "distinct (map fst m) \<Longrightarrow>
   \<forall>t \<in> set tests. test_name t = ''test_summary'' \<longrightarrow> result t \<in> fst ` set m \<Longrightarrow>
   summary_tests_loop h tests m = Inr (add_names (test_names h tests) m)"
proof (induction tests arbitrary: m)
  case Nil
  then show ?case by (simp add: test_names_def add_names_nil)
next
  case (Cons t tests)
  show ?case
  proof (cases "test_name t = ''test_summary''")
    case False
    have "test_names h (t # tests) = test_names h tests"
      using False by (simp add: test_names_def fun_eq_iff)
    with Cons False show ?thesis by simp
  next
    case True
    with Cons.prems obtain hs where hs: "map_of m (result t) = Some hs"
      by (auto simp: map_of_eq_None_iff [symmetric] simp del: map_of_eq_None_iff)
    let ?m = "AList.update (result t) (hs @ [h]) m"
    have m: "?m = add_names (\<lambda>s. if s = result t then [h] else []) m"
      using Cons.prems(1) hs by (rule update_add_names)
    have keys: "map fst ?m = map fst m" by (simp add: m add_names_keys)
    then have "set (map fst ?m) = set (map fst m)" by simp
    then have img: "fst ` set ?m = fst ` set m" by (simp only: set_map)
    have d: "distinct (map fst ?m)" using Cons.prems(1) by (simp only: keys)
    have k: "\<forall>t \<in> set tests. test_name t = ''test_summary'' \<longrightarrow> result t \<in> fst ` set ?m"
      using Cons.prems(2) by (simp only: img) simp
    have "summary_tests_loop h tests ?m = Inr (add_names (test_names h tests) ?m)"
      using d k by (rule Cons.IH)
    moreover have "(\<lambda>s. (if s = result t then [h] else []) @ test_names h tests s) = test_names h (t # tests)"
      using True by (auto simp: test_names_def fun_eq_iff)
    ultimately show ?thesis using True hs by (simp add: m add_names_add_names)
  qed
qed

lemma summary_tests_loop_bad:
  "\<exists>t \<in> set tests. test_name t = ''test_summary'' \<and> result t \<notin> fst ` set m \<Longrightarrow>
   distinct (map fst m) \<Longrightarrow>
   summary_tests_loop h tests m = Inl KeyError"
proof (induction tests arbitrary: m)
  case Nil
  then show ?case by simp
next
  case (Cons t tests)
  show ?case
  proof (cases "test_name t = ''test_summary''")
    case False
    with Cons show ?thesis by simp
  next
    case True
    show ?thesis
    proof (cases "map_of m (result t)")
      case None
      with True show ?thesis by simp
    next
      case (Some hs)
      let ?m = "AList.update (result t) (hs @ [h]) m"
      have m: "?m = add_names (\<lambda>s. if s = result t then [h] else []) m"
        using Cons.prems(2) Some by (rule update_add_names)
      have keys: "map fst ?m = map fst m" by (simp add: m add_names_keys)
      then have "set (map fst ?m) = set (map fst m)" by simp
      then have img: "fst ` set ?m = fst ` set m" by (simp only: set_map)
      have d: "distinct (map fst ?m)" using Cons.prems(2) by (simp only: keys)
      from Some have "result t \<in> fst ` set m" by (metis map_of_eq_None_iff option.distinct(1))
      with Cons.prems(1) True
      have "\<exists>t \<in> set tests. test_name t = ''test_summary'' \<and> result t \<notin> fst ` set ?m"
        by (simp only: img) auto
      then have "summary_tests_loop h tests ?m = Inl KeyError"
        using d by (rule Cons.IH)
      with True Some show ?thesis by simp
    qed
  qed
qed

lemma summary_items_loop_ok:
  "distinct (map fst m) \<Longrightarrow>
   \<forall>(h, tests) \<in> set items. \<forall>t \<in> set tests.
      test_name t = ''test_summary'' \<longrightarrow> result t \<in> fst ` set m \<Longrightarrow>
   summary_items_loop items m = Inr (add_names (summary_names items) m)"
proof (induction items arbitrary: m)
  case Nil
  then show ?case by (simp add: summary_names_def add_names_nil)
next
  case (Cons p items)
  obtain h tests where p: "p = (h, tests)" by (cases p)
  let ?m = "add_names (test_names h tests) m"
  have 1: "summary_tests_loop h tests m = Inr ?m"
    using Cons.prems by (intro summary_tests_loop_ok) (auto simp: p)
  have keys: "map fst ?m = map fst m" by (rule add_names_keys)
  then have "set (map fst ?m) = set (map fst m)" by simp
  then have img: "fst ` set ?m = fst ` set m" by (simp only: set_map)
  have d: "distinct (map fst ?m)" using Cons.prems(1) by (simp only: keys)
  have k: "\<forall>(h, tests) \<in> set items. \<forall>t \<in> set tests.
      test_name t = ''test_summary'' \<longrightarrow> result t \<in> fst ` set ?m"
    using Cons.prems(2) by (simp only: img) simp
  have "summary_items_loop items ?m = Inr (add_names (summary_names items) ?m)"
    using d k by (rule Cons.IH)
  moreover have "(\<lambda>s. test_names h tests s @ summary_names items s) = summary_names (p # items)"
    by (simp add: summary_names_def p fun_eq_iff)
  ultimately show ?case using 1 by (simp add: p add_names_add_names)
qed

lemma summary_items_loop_bad:
  "\<exists>(h, tests) \<in> set items. \<exists>t \<in> set tests.
      test_name t = ''test_summary'' \<and> result t \<notin> fst ` set m \<Longrightarrow>
   distinct (map fst m) \<Longrightarrow>
   summary_items_loop items m = Inl KeyError"
proof (induction items arbitrary: m)
  case Nil
  then show ?case by simp
next
  case (Cons p items)
  obtain h tests where p: "p = (h, tests)" by (cases p)
  show ?case
  proof (cases "\<exists>t \<in> set tests. test_name t = ''test_summary'' \<and> result t \<notin> fst ` set m")
    case True
    then have "summary_tests_loop h tests m = Inl KeyError"
      using Cons.prems(2) by (rule summary_tests_loop_bad)
    then show ?thesis by (simp add: p)
  next
    case False
    let ?m = "add_names (test_names h tests) m"
    have 1: "summary_tests_loop h tests m = Inr ?m"
      using Cons.prems(2) False by (intro summary_tests_loop_ok) auto
    have keys: "map fst ?m = map fst m" by (rule add_names_keys)
    then have "set (map fst ?m) = set (map fst m)" by simp
    then have img: "fst ` set ?m = fst ` set m" by (simp only: set_map)
    have d: "distinct (map fst ?m)" using Cons.prems(2) by (simp only: keys)
    have "\<exists>(h, tests) \<in> set items. \<exists>t \<in> set tests.
      test_name t = ''test_summary'' \<and> result t \<notin> fst ` set ?m"
      using Cons.prems(1) False by (simp only: img) (auto simp: p)
    then have "summary_items_loop items ?m = Inl KeyError"
      using d by (rule Cons.IH)
    with 1 show ?thesis by (simp add: p)
  qed
qed

lemma severity_keys_distinct: "distinct (map fst REL_VAL_SEVERITY_MAP)"
  by (simp add: REL_VAL_SEVERITY_MAP_def)

lemma print_summary_ok:
  assumes "valid_results summary"
  shows "print_summary summary =
     Inr (map (\<lambda>s. (fst s, summary_names summary (fst s))) REL_VAL_SEVERITY_MAP)"
proof -
  let ?m = "map (\<lambda>s. (fst s, [])) REL_VAL_SEVERITY_MAP :: (string \<times> string list) list"
  have keys: "map fst ?m = map fst REL_VAL_SEVERITY_MAP" by (simp add: comp_def)
  then have "set (map fst ?m) = set (map fst REL_VAL_SEVERITY_MAP)" by simp
  then have img: "fst ` set ?m = fst ` set REL_VAL_SEVERITY_MAP" by (simp only: set_map)
  have d: "distinct (map fst ?m)" using severity_keys_distinct by (simp only: keys)
  have k: "\<forall>(h, tests) \<in> set summary. \<forall>t \<in> set tests.
      test_name t = ''test_summary'' \<longrightarrow> result t \<in> fst ` set ?m"
    using assms unfolding valid_results_def by (simp only: img)
  have "summary_items_loop summary ?m = Inr (add_names (summary_names summary) ?m)"
    using d k by (rule summary_items_loop_ok)
  then show ?thesis by (simp add: print_summary_def add_names_def comp_def)
qed

lemma print_summary_bad:
  assumes "\<not> valid_results summary"
  shows "print_summary (summary :: 'v summary) = Inl KeyError"
proof -
  let ?m = "map (\<lambda>s. (fst s, [])) REL_VAL_SEVERITY_MAP :: (string \<times> string list) list"
  have keys: "map fst ?m = map fst REL_VAL_SEVERITY_MAP" by (simp add: comp_def)
  then have "set (map fst ?m) = set (map fst REL_VAL_SEVERITY_MAP)" by simp
  then have img: "fst ` set ?m = fst ` set REL_VAL_SEVERITY_MAP" by (simp only: set_map)
  have d: "distinct (map fst ?m)" using severity_keys_distinct by (simp only: keys)
  have "\<exists>(h, tests) \<in> set summary. \<exists>t \<in> set tests.
      test_name t = ''test_summary'' \<and> result t \<notin> fst ` set ?m"
    using assms unfolding valid_results_def by (simp only: img) auto
  then have "summary_items_loop summary ?m = Inl KeyError"
    using d by (rule summary_items_loop_bad)
  then show ?thesis by (simp add: print_summary_def)
qed

lemma in_summary_names:
  "h \<in> set (summary_names summary sev) \<longleftrightarrow>
     (\<exists>tests t. (h, tests) \<in> set summary \<and> t \<in> set tests \<and>
        test_name t = ''test_summary'' \<and> result t = sev)"
  by (auto simp: summary_names_def test_names_def)

lemma map_of_keyed:
  "map_of (map (\<lambda>s. (fst s, f (fst s))) xs) k = (if k \<in> fst ` set xs then Some (f k) else None)"
  by (induction xs) auto

lemma print_summary_example:
  "print_summary example_summary =
     Inr [(''GOOD'', []), (''WARNING'', []), (''NONCRIT_NC'', []), (''CRIT_NC'', []),
          (''BAD'', [''H1''])]"
  by (simp add: print_summary_def example_summary_def REL_VAL_SEVERITY_MAP_def)

text \<open>
  Claim C1. For every summary document (a dict, so with distinct histogram names) whose
  \<open>test_summary\<close> outcomes carry severity labels, \<open>print_summary\<close> returns a map
  with the five severities as keys, and a name is listed under a severity exactly when
  its test list holds an outcome named \<open>test_summary\<close> with that result: outcomes of
  other tests are ignored, and a histogram without a \<open>test_summary\<close> outcome is
  listed under no severity.
\<close>

theorem print_summary_buckets:
  assumes "valid_results summary" and "distinct (map fst summary)"
  shows "\<exists>m. print_summary summary = Inr m \<and> map fst m = map fst REL_VAL_SEVERITY_MAP \<and>
     (\<forall>sev histos h. map_of m sev = Some histos \<longrightarrow>
        (h \<in> set histos \<longleftrightarrow>
           (\<exists>tests t. map_of summary h = Some tests \<and> t \<in> set tests \<and>
              test_name t = ''test_summary'' \<and> result t = sev))) \<and>
     (\<forall>h tests. map_of summary h = Some tests \<and>
                 (\<forall>t \<in> set tests. test_name t \<noteq> ''test_summary'') \<longrightarrow>
        (\<forall>sev histos. map_of m sev = Some histos \<longrightarrow> h \<notin> set histos))"
proof -
  let ?m = "map (\<lambda>s. (fst s, summary_names summary (fst s))) REL_VAL_SEVERITY_MAP"
  have run: "print_summary summary = Inr ?m"
    using assms(1) by (rule print_summary_ok)
  have keys: "map fst ?m = map fst REL_VAL_SEVERITY_MAP" by (simp add: comp_def)
  have bucket: "histos = summary_names summary sev" if "map_of ?m sev = Some histos" for sev histos
    using that by (simp add: map_of_keyed split: if_splits)
  have entry: "(h, tests) \<in> set summary \<longleftrightarrow> map_of summary h = Some tests" for h tests
    using assms(2) by simp
  have member: "h \<in> set histos \<longleftrightarrow>
      (\<exists>tests t. map_of summary h = Some tests \<and> t \<in> set tests \<and>
         test_name t = ''test_summary'' \<and> result t = sev)"
    if "map_of ?m sev = Some histos" for sev histos h
    by (simp only: bucket [OF that] in_summary_names entry)
  have absent: "h \<notin> set histos"
    if "map_of summary h = Some tests \<and> (\<forall>t \<in> set tests. test_name t \<noteq> ''test_summary'')"
      and "map_of ?m sev = Some histos" for h tests sev histos
    using that(1) by (simp only: member [OF that(2)]) auto
  show ?thesis
    using run keys member absent by blast
qed

theorem print_summary_buckets_witness:
  "valid_results example_summary \<and> distinct (map fst example_summary) \<and>
   (\<exists>m. print_summary example_summary = Inr m \<and> map fst m = map fst REL_VAL_SEVERITY_MAP \<and>
     (\<forall>sev histos h. map_of m sev = Some histos \<longrightarrow>
        (h \<in> set histos \<longleftrightarrow>
           (\<exists>tests t. map_of example_summary h = Some tests \<and> t \<in> set tests \<and>
              test_name t = ''test_summary'' \<and> result t = sev))) \<and>
     (\<forall>h tests. map_of example_summary h = Some tests \<and>
                 (\<forall>t \<in> set tests. test_name t \<noteq> ''test_summary'') \<longrightarrow>
        (\<forall>sev histos. map_of m sev = Some histos \<longrightarrow> h \<notin> set histos)))"
proof -
  have v: "valid_results example_summary"
    by (simp add: valid_results_def example_summary_def REL_VAL_SEVERITY_MAP_def)
  have d: "distinct (map fst example_summary)"
    by (simp add: example_summary_def)
  show ?thesis
    using v d print_summary_buckets [OF v d] by (intro conjI)
qed

subsection \<open>Properties of \<open>make_new_threshold_file\<close>\<close>

lemma threshold_tests_loop_eq:
  "threshold_tests_loop str_value h tests written =
     written @ map (threshold_line str_value h) (filter comparable tests)"
  by (induction tests arbitrary: written) (simp_all add: threshold_line_def)

lemma threshold_items_loop_eq:
  "threshold_items_loop str_value items written =
     written @ concat (map (\<lambda>(h, tests).
        map (threshold_line str_value h) (filter comparable tests)) items)"
  by (induction items arbitrary: written) (auto simp: threshold_tests_loop_eq)

text \<open>
  Claim C4. For every prior summary document, the strings written to the rebuilt
  threshold file are, in document order, exactly one line
  \<open>histo_name,test_name,value\<close> for each outcome whose \<open>comparable\<close> field is
  true; an outcome whose \<open>comparable\<close> field is false writes nothing.
\<close>

theorem make_new_threshold_file_lines:
  "make_new_threshold_file str_value json_in =
     concat (map (\<lambda>(histo_name, tests).
        map (threshold_line str_value histo_name) (filter comparable tests)) json_in)"
  by (simp add: make_new_threshold_file_def threshold_items_loop_eq)

lemma make_new_threshold_file_example:
  "make_new_threshold_file str_value example_summary =
     [''H1,chi2,'' @ str_value (6 / 5) @ [CHR 0x0A], ''H2,chi2,'' @ str_value 2 @ [CHR 0x0A]]"
  by (simp add: make_new_threshold_file_def example_summary_def)

subsection \<open>Properties of \<open>compare\<close>\<close>

lemma map_raise_Inr:
  "\<forall>x \<in> set xs. f x = Inr (g x) \<Longrightarrow> map_raise f xs = Inr (map g xs)"
  by (induction xs) simp_all

lemma set_set_intersection: "set (set_intersection a b) = set a \<inter> set b"
  by (auto simp: set_intersection_def)

lemma print_summary_Inr:
  assumes "print_summary summary = Inr m"
  shows "m = map (\<lambda>s. (fst s, summary_names summary (fst s))) REL_VAL_SEVERITY_MAP"
proof (cases "valid_results summary")
  case True
  then show ?thesis using assms by (simp add: print_summary_ok)
next
  case False
  then show ?thesis using assms by (simp add: print_summary_bad)
qed

lemma getitem_print_summary:
  assumes "print_summary summary = Inr m" and "sev \<in> fst ` set REL_VAL_SEVERITY_MAP"
  shows "map_of m sev = Some (summary_names summary sev)"
    and "getitem m sev = Inr (summary_names summary sev)"
  using assms(2) by (simp_all add: print_summary_Inr [OF assms(1)] getitem_def map_of_keyed)

lemma compare_severity_two:
  assumes "getitem s0 sev = Inr b0" and "getitem s1 sev = Inr b1"
  shows "compare_severity [s0, s1] sev = Inr (sev, [differing b0 b1 b0, differing b0 b1 b1])"
  using assms by (simp add: compare_severity_def compare_file_def set_set_intersection differing_def)

lemma difference_branch_two:
  assumes ra: "read_summary (join ia ''SummaryGlobal.json'') = Some a"
    and rb: "read_summary (join ib ''SummaryGlobal.json'') = Some b"
    and pa: "print_summary a = Inr ma" and pb: "print_summary b = Inr mb"
  shows "difference_branch read_summary [ia, ib] =
     Inr (0, map (\<lambda>sev. (sev, [differing (summary_names a sev) (summary_names b sev) (summary_names a sev),
                               differing (summary_names a sev) (summary_names b sev) (summary_names b sev)]))
              (map fst REL_VAL_SEVERITY_MAP))"
proof -
  let ?g = "\<lambda>sev. (sev, [differing (summary_names a sev) (summary_names b sev) (summary_names a sev),
                         differing (summary_names a sev) (summary_names b sev) (summary_names b sev)])"
  have "compare_severity [ma, mb] sev = Inr (?g sev)"
    if "sev \<in> set (map fst REL_VAL_SEVERITY_MAP)" for sev
  proof -
    from that have k: "sev \<in> fst ` set REL_VAL_SEVERITY_MAP" by simp
    show ?thesis
      using getitem_print_summary(2) [OF pa k] getitem_print_summary(2) [OF pb k]
      by (rule compare_severity_two)
  qed
  then have "map_raise (compare_severity [ma, mb]) (map fst REL_VAL_SEVERITY_MAP) =
      Inr (map ?g (map fst REL_VAL_SEVERITY_MAP))"
    by (intro map_raise_Inr) blast
  then show ?thesis
    using ra rb pa pb by (simp add: difference_branch_def Let_def)
qed

text \<open>
  The difference branch, on a list of two inputs whose summaries \<open>print_summary\<close>
  classifies: for every severity and each of the two inputs it prints exactly the names
  of that input's bucket that are not in the intersection of the two buckets.
\<close>

lemma difference_branch_report:
  assumes "read_summary (join ia ''SummaryGlobal.json'') = Some a"
    and "read_summary (join ib ''SummaryGlobal.json'') = Some b"
    and "print_summary a = Inr ma" and "print_summary b = Inr mb"
  shows "\<exists>report. difference_branch read_summary [ia, ib] = Inr (0, report) \<and>
     map fst report = map fst REL_VAL_SEVERITY_MAP \<and>
     (\<forall>sev \<in> fst ` set REL_VAL_SEVERITY_MAP. \<exists>b0 b1 r0 r1.
        map_of ma sev = Some b0 \<and> map_of mb sev = Some b1 \<and>
        map_of report sev = Some [r0, r1] \<and>
        r0 = filter (\<lambda>h. h \<notin> set b0 \<inter> set b1) b0 \<and>
        r1 = filter (\<lambda>h. h \<notin> set b0 \<inter> set b1) b1 \<and>
        (\<forall>h. h \<in> set b0 \<and> h \<in> set b1 \<longrightarrow> h \<notin> set r0 \<and> h \<notin> set r1))"
proof -
  let ?g = "\<lambda>sev. [differing (summary_names a sev) (summary_names b sev) (summary_names a sev),
                   differing (summary_names a sev) (summary_names b sev) (summary_names b sev)]"
  let ?report = "map (\<lambda>sev. (sev, ?g sev)) (map fst REL_VAL_SEVERITY_MAP)"
  have run: "difference_branch read_summary [ia, ib] = Inr (0, ?report)"
    using assms by (rule difference_branch_two)
  have keys: "map fst ?report = map fst REL_VAL_SEVERITY_MAP" by (simp add: comp_def)
  have entry: "\<exists>b0 b1 r0 r1.
        map_of ma sev = Some b0 \<and> map_of mb sev = Some b1 \<and>
        map_of ?report sev = Some [r0, r1] \<and>
        r0 = filter (\<lambda>h. h \<notin> set b0 \<inter> set b1) b0 \<and>
        r1 = filter (\<lambda>h. h \<notin> set b0 \<inter> set b1) b1 \<and>
        (\<forall>h. h \<in> set b0 \<and> h \<in> set b1 \<longrightarrow> h \<notin> set r0 \<and> h \<notin> set r1)"
    if k: "sev \<in> fst ` set REL_VAL_SEVERITY_MAP" for sev
  proof -
    have 1: "map_of ma sev = Some (summary_names a sev)"
      using assms(3) k by (rule getitem_print_summary(1))
    have 2: "map_of mb sev = Some (summary_names b sev)"
      using assms(4) k by (rule getitem_print_summary(1))
    have "map_of (map (\<lambda>s. (fst s, ?g (fst s))) REL_VAL_SEVERITY_MAP) sev = Some (?g sev)"
      using k map_of_keyed [of ?g REL_VAL_SEVERITY_MAP sev] by simp
    then have "map_of ?report sev = Some (?g sev)"
      by (simp add: comp_def)
    then have 3: "map_of ?report sev =
        Some [filter (\<lambda>h. h \<notin> set (summary_names a sev) \<inter> set (summary_names b sev)) (summary_names a sev),
              filter (\<lambda>h. h \<notin> set (summary_names a sev) \<inter> set (summary_names b sev)) (summary_names b sev)]"
      by (simp only: differing_def)
    have 4: "\<forall>h. h \<in> set (summary_names a sev) \<and> h \<in> set (summary_names b sev) \<longrightarrow>
        h \<notin> set (filter (\<lambda>h. h \<notin> set (summary_names a sev) \<inter> set (summary_names b sev)) (summary_names a sev)) \<and>
        h \<notin> set (filter (\<lambda>h. h \<notin> set (summary_names a sev) \<inter> set (summary_names b sev)) (summary_names b sev))"
      by simp
    show ?thesis
      using 1 2 3 4 by blast
  qed
  show ?thesis
    using run keys entry by blast
qed

lemma difference_branch_example:
  "difference_branch example_read [''runA'', ''runB''] =
     Inr (0, [(''GOOD'', [ [], [] ]), (''WARNING'', [ [''H1''], [''H3''] ]),
              (''NONCRIT_NC'', [ [], [] ]), (''CRIT_NC'', [ [], [] ]), (''BAD'', [ [], [] ])])"
proof -
  have a: "print_summary example_run_a =
      Inr [(''GOOD'', []), (''WARNING'', [''H1'', ''H2'']), (''NONCRIT_NC'', []),
           (''CRIT_NC'', []), (''BAD'', [])]"
    by (simp add: print_summary_def example_run_a_def summary_outcome_def REL_VAL_SEVERITY_MAP_def)
  have b: "print_summary example_run_b =
      Inr [(''GOOD'', []), (''WARNING'', [''H2'', ''H3'']), (''NONCRIT_NC'', []),
           (''CRIT_NC'', []), (''BAD'', [])]"
    by (simp add: print_summary_def example_run_b_def summary_outcome_def REL_VAL_SEVERITY_MAP_def)
  show ?thesis
    by (simp add: difference_branch_def Let_def join_def example_read_def a b
        REL_VAL_SEVERITY_MAP_def compare_severity_def compare_file_def getitem_def
        set_intersection_def)
qed

text \<open>
  Claim C3. The cross-run diff should report, per severity and per input summary, the
  names bucketed at that severity in that summary but not in both. \<open>compare\<close> never
  gets there: on every argument namespace of the \<open>compare\<close> sub-command it raises
  \<open>AttributeError\<close>, since both branches read \<open>args.input\<close>. On the two example runs
  the difference branch would have reported \<open>H1\<close> and \<open>H3\<close> at \<open>WARNING\<close>.
\<close>

theorem compare_raises:
  "compare read_summary args = Inl AttributeError"
proof (cases "compare_values args \<or> \<not> difference args")
  case True
  then show ?thesis
    by (auto simp: compare_def compare_values_branch_def args_input_def Let_def)
next
  case False
  then show ?thesis
    by (simp add: compare_def args_input_def Let_def)
qed

lemma compare_example: "compare example_read example_compare_args = Inl AttributeError"
  by (simp add: compare_def example_compare_args_def args_input_def Let_def)

subsection \<open>Properties of \<open>find_mutual_files\<close>\<close>

lemma find_mutual_files_example_grep: "find_mutual_files example_glob [''A'', ''B''] ''*.root'' (Some [''a'', ''b'']) = [''ab.root'', ''ab.root'']"
  by code_simp

lemma find_mutual_files_example: "find_mutual_files example_glob [''A'', ''B''] ''*.root'' None = [''ab.root'', ''c.root'']"
  by code_simp

lemma set_intersection_loop:
  "set (intersection_loop a fs) = set a \<inter> (\<Inter>f \<in> set fs. set f)"
  by (induction fs arbitrary: a) (auto simp: set_set_intersection)

lemma distinct_set_intersection: "distinct (set_intersection a b)"
  by (simp add: set_intersection_def)

lemma distinct_intersection_loop:
  "distinct a \<or> fs \<noteq> [] \<Longrightarrow> distinct (intersection_loop a fs)"
proof (induction fs arbitrary: a)
  case Nil
  then show ?case by simp
next
  case (Cons f fs)
  have "distinct (set_intersection a f)" by (rule distinct_set_intersection)
  then have "distinct (intersection_loop (set_intersection a f) fs)"
    by (intro Cons.IH) simp
  then show ?case by simp
qed

lemma grep_cache_loop_eq:
  "grep_cache_loop g cache acc = acc @ filter (is_in g) cache"
  by (induction cache arbitrary: acc) simp_all

lemma grep_loop_eq:
  "grep_loop gs cache acc = acc @ concat (map (\<lambda>g. filter (is_in g) cache) gs)"
  by (induction gs arbitrary: acc) (simp_all add: grep_cache_loop_eq)

lemma is_in_iff: "is_in g s \<longleftrightarrow> (\<exists>pre post. s = pre @ g @ post)"
proof (induction s)
  case Nil
  then show ?case by auto
next
  case (Cons c cs)
  show ?case
  proof
    assume "is_in g (c # cs)"
    then consider "take (length g) (c # cs) = g" | "is_in g cs" by auto
    then show "\<exists>pre post. c # cs = pre @ g @ post"
    proof cases
      case 1
      then have "c # cs = [] @ g @ drop (length g) (c # cs)"
        by (metis append_Nil append_take_drop_id)
      then show ?thesis by blast
    next
      case 2
      with Cons obtain pre post where "cs = pre @ g @ post" by blast
      then have "c # cs = (c # pre) @ g @ post" by simp
      then show ?thesis by blast
    qed
  next
    assume "\<exists>pre post. c # cs = pre @ g @ post"
    then obtain pre post where e: "c # cs = pre @ g @ post" by blast
    show "is_in g (c # cs)"
    proof (cases pre)
      case Nil
      with e have "take (length g) (c # cs) = g" by simp
      then show ?thesis by simp
    next
      case (Cons x pre')
      with e have "cs = pre' @ g @ post" by simp
      with Cons.IH have "is_in g cs" by blast
      then show ?thesis by simp
    qed
  qed
qed

lemma count_list_sort: "count_list (sort xs) p = count_list (xs :: string list) p"
proof -
  have "length (filter ((=) p) (sort xs)) = length (sort (filter ((=) p) xs))"
    by (simp only: filter_sort)
  then show ?thesis by (simp add: count_list_eq_length_filter)
qed

lemma count_list_filter: "count_list (filter P xs) p = (if P p then count_list xs p else 0)"
  by (induction xs) auto

lemma count_list_grep:
  "count_list (concat (map (\<lambda>g. filter (is_in g) cache) gs)) p =
     count_list cache p * length (filter (\<lambda>g. is_in g p) gs)"
  by (induction gs) (simp_all add: count_list_filter)

lemma count_list_distinct: "distinct xs \<Longrightarrow> count_list xs p = (if p \<in> set xs then 1 else 0)"
  by (induction xs) auto

lemma set_mutual_files:
  assumes "dirs \<noteq> []"
  shows "set (mutual_files glob dirs glob_pattern) =
     {p. \<forall>d \<in> set dirs. p \<in> set (relative_files glob glob_pattern d)}"
proof -
  from assms obtain d ds where dirs: "dirs = d # ds" by (cases dirs) auto
  show ?thesis
    by (auto simp: mutual_files_def dirs set_intersection_loop)
qed

lemma distinct_mutual_files:
  assumes "\<forall>d \<in> set dirs. distinct (relative_files glob glob_pattern d)"
  shows "distinct (mutual_files glob dirs glob_pattern)"
proof (cases dirs)
  case Nil
  then show ?thesis by (simp add: mutual_files_def)
next
  case (Cons d ds)
  with assms have "distinct (relative_files glob glob_pattern d)" by simp
  then have "distinct (intersection_loop (relative_files glob glob_pattern d)
      (map (relative_files glob glob_pattern) ds))"
    by (intro distinct_intersection_loop) simp
  then show ?thesis by (simp add: mutual_files_def Cons)
qed

lemma find_mutual_files_grep_eq:
  assumes "dirs \<noteq> []" and "grep \<noteq> []"
  shows "find_mutual_files glob dirs glob_pattern (Some grep) =
     sort (concat (map (\<lambda>g. filter (is_in g) (mutual_files glob dirs glob_pattern)) grep))"
  using assms by (simp add: find_mutual_files_def Let_def grep_loop_eq)

lemma find_mutual_files_no_dirs: "find_mutual_files glob [] glob_pattern grep = []"
  by (simp add: find_mutual_files_def)

text \<open>
  Claim C7, amended. For every non-empty list of trees in which the walk of each tree
  lists a path once, every glob pattern and every non-empty list of grep patterns,
  \<open>find_mutual_files\<close> returns a lexicographically sorted list whose elements are
  exactly the tree-relative paths found in every tree that contain at least one grep
  pattern as a substring; a returned path occurs once for every entry of the grep list
  that it contains, so more than once when several entries match; and when no path is
  found in every tree the result is the empty list.
\<close>

theorem find_mutual_files_grep:
  assumes "dirs \<noteq> []" and "grep \<noteq> []"
    and "\<forall>d \<in> set dirs. distinct (relative_files glob glob_pattern d)"
  shows "sorted (find_mutual_files glob dirs glob_pattern (Some grep)) \<and>
     set (find_mutual_files glob dirs glob_pattern (Some grep)) =
       {p. (\<forall>d \<in> set dirs. p \<in> set (relative_files glob glob_pattern d)) \<and>
           (\<exists>g \<in> set grep. \<exists>pre post. p = pre @ g @ post)} \<and>
     (\<forall>p \<in> set (find_mutual_files glob dirs glob_pattern (Some grep)).
        count_list (find_mutual_files glob dirs glob_pattern (Some grep)) p =
          length (filter (\<lambda>g. is_in g p) grep)) \<and>
     ((\<forall>p. \<exists>d \<in> set dirs. p \<notin> set (relative_files glob glob_pattern d)) \<longrightarrow>
        find_mutual_files glob dirs glob_pattern (Some grep) = [])"
proof -
  let ?cache = "mutual_files glob dirs glob_pattern"
  let ?res = "find_mutual_files glob dirs glob_pattern (Some grep)"
  have eq: "?res = sort (concat (map (\<lambda>g. filter (is_in g) ?cache) grep))"
    using assms(1,2) by (rule find_mutual_files_grep_eq)
  have 1: "sorted ?res" by (simp only: eq sorted_sort)
  have cache: "set ?cache = {p. \<forall>d \<in> set dirs. p \<in> set (relative_files glob glob_pattern d)}"
    using assms(1) by (rule set_mutual_files)
  have "set ?res = {p \<in> set ?cache. \<exists>g \<in> set grep. is_in g p}"
    by (auto simp: eq)
  then have 2: "set ?res =
       {p. (\<forall>d \<in> set dirs. p \<in> set (relative_files glob glob_pattern d)) \<and>
           (\<exists>g \<in> set grep. \<exists>pre post. p = pre @ g @ post)}"
    by (simp only: cache is_in_iff) blast
  have d: "distinct ?cache" using assms(3) by (rule distinct_mutual_files)
  have cnt: "count_list ?res p = count_list ?cache p * length (filter (\<lambda>g. is_in g p) grep)" for p
    by (simp only: eq count_list_sort count_list_grep)
  have 3: "\<forall>p \<in> set ?res. count_list ?res p = length (filter (\<lambda>g. is_in g p) grep)"
  proof
    fix p assume "p \<in> set ?res"
    then have "p \<in> set ?cache" using \<open>set ?res = {p \<in> set ?cache. \<exists>g \<in> set grep. is_in g p}\<close> by blast
    then have "count_list ?cache p = 1" using d by (simp add: count_list_distinct)
    then show "count_list ?res p = length (filter (\<lambda>g. is_in g p) grep)"
      by (simp add: cnt)
  qed
  have 4: "(\<forall>p. \<exists>d \<in> set dirs. p \<notin> set (relative_files glob glob_pattern d)) \<longrightarrow> ?res = []"
  proof
    assume "\<forall>p. \<exists>d \<in> set dirs. p \<notin> set (relative_files glob glob_pattern d)"
    then have "set ?res = {}" by (simp only: 2) blast
    then show "?res = []" by simp
  qed
  from 1 2 3 4 show ?thesis by (intro conjI)
qed

theorem find_mutual_files_grep_witness:
  "distinct (relative_files example_glob ''*.root'' ''A'') \<and>
   distinct (relative_files example_glob ''*.root'' ''B'') \<and>
   sorted (find_mutual_files example_glob [''A'', ''B''] ''*.root'' (Some [''a'', ''b''])) \<and>
   set (find_mutual_files example_glob [''A'', ''B''] ''*.root'' (Some [''a'', ''b''])) =
     {p. (\<forall>d \<in> set [''A'', ''B'']. p \<in> set (relative_files example_glob ''*.root'' d)) \<and>
         (\<exists>g \<in> set [''a'', ''b'']. \<exists>pre post. p = pre @ g @ post)}"
proof -
  have a: "distinct (relative_files example_glob ''*.root'' ''A'')" by code_simp
  have b: "distinct (relative_files example_glob ''*.root'' ''B'')" by code_simp
  have h: "\<forall>d \<in> set [''A'', ''B'']. distinct (relative_files example_glob ''*.root'' d)"
    using a b by simp
  have d: "[''A'', ''B''] \<noteq> []" and g: "[''a'', ''b''] \<noteq> []" by simp_all
  show ?thesis
    using a b find_mutual_files_grep [OF d g h] by (intro conjI) blast+
qed

text \<open>
  Claim C7 as stated fails: a path that contains two of the grep patterns is returned
  twice.
\<close>

theorem find_mutual_files_grep_counterexample:
  "\<not> distinct (find_mutual_files example_glob [''A'', ''B''] ''*.root'' (Some [''a'', ''b'']))"
  by (simp add: find_mutual_files_example_grep)

subsection \<open>Properties of \<open>make_summary\<close>\<close>

lemma make_summary_items_other:
  "h \<notin> fst ` set doc \<Longrightarrow>
   map_of (make_summary_items relpath in_dir path doc summary) h = map_of summary h"
  by (induction doc arbitrary: summary) (auto simp: update_conv')

lemma make_summary_items_key:
  "distinct (map fst doc) \<Longrightarrow> map_of doc h = Some tests \<Longrightarrow>
   map_of (make_summary_items relpath in_dir path doc summary) h =
     Some (map (annotate relpath in_dir path h) tests)"
proof (induction doc arbitrary: summary)
  case Nil
  then show ?case by simp
next
  case (Cons p doc)
  obtain k v where p: "p = (k, v)" by (cases p)
  show ?case
  proof (cases "k = h")
    case True
    with Cons.prems p have "h \<notin> fst ` set doc" and "v = tests" by auto
    then show ?thesis
      by (simp add: p True make_summary_items_other update_conv')
  next
    case False
    with Cons p show ?thesis by simp
  qed
qed

lemma make_summary_paths_other:
  "\<forall>q \<in> set paths. h \<notin> fst ` set (load q) \<Longrightarrow>
   map_of (make_summary_paths load relpath in_dir paths summary) h = map_of summary h"
  by (induction paths arbitrary: summary) (simp_all add: make_summary_items_other)

lemma make_summary_paths_append:
  "make_summary_paths load relpath in_dir (pre @ post) summary =
     make_summary_paths load relpath in_dir post
       (make_summary_paths load relpath in_dir pre summary)"
  by (induction pre arbitrary: summary) simp_all

text \<open>
  Claim C2. When the list of per-task documents that \<open>make_summary\<close> processes holds
  the document \<open>path\<close> with tests for a histogram name, and no document processed
  after it holds that name, the merged summary maps the name to the tests of that
  document (with the provenance keys of that document set), whatever earlier documents
  held for the same name: the last writer wins.
\<close>

theorem make_summary_last_writer:
  assumes "glob (in_dir @ ''/**/Summary.json'') = pre @ path # post"
    and "distinct (map fst (load path))"
    and "map_of (load path) histo_name = Some tests"
    and "\<forall>q \<in> set post. histo_name \<notin> fst ` set (load q)"
  shows "map_of (make_summary glob load relpath in_dir) histo_name =
     Some (map (annotate relpath in_dir path histo_name) tests)"
proof -
  let ?s = "make_summary_paths load relpath in_dir pre []"
  have "make_summary glob load relpath in_dir =
      make_summary_paths load relpath in_dir post
        (make_summary_items relpath in_dir path (load path) ?s)"
    by (simp add: make_summary_def assms(1) make_summary_paths_append)
  then have "map_of (make_summary glob load relpath in_dir) histo_name =
      map_of (make_summary_items relpath in_dir path (load path) ?s) histo_name"
    using assms(4) by (simp add: make_summary_paths_other)
  also have "\<dots> = Some (map (annotate relpath in_dir path histo_name) tests)"
    using assms(2,3) by (rule make_summary_items_key)
  finally show ?thesis .
qed

lemma make_summary_paths_cong:
  "\<forall>path \<in> set paths. load1 path = load2 path \<Longrightarrow>
   make_summary_paths load1 relpath in_dir paths summary =
     make_summary_paths load2 relpath in_dir paths summary"
  by (induction paths arbitrary: summary) simp_all

text \<open>
  Claim C8. \<open>make_summary\<close> is a function of the list of \<open>Summary.json\<close> paths
  found under the directory and of the contents of those files: two runs on file
  systems that agree on both, such as the tree before and after the global summary has
  been written next to them, return the same document, with the same key order.
\<close>

theorem make_summary_deterministic:
  assumes "glob1 (in_dir @ ''/**/Summary.json'') = glob2 (in_dir @ ''/**/Summary.json'')"
    and "\<forall>path \<in> set (glob1 (in_dir @ ''/**/Summary.json'')). load1 path = load2 path"
  shows "make_summary glob1 load1 relpath in_dir = make_summary glob2 load2 relpath in_dir"
proof -
  have "make_summary glob1 load1 relpath in_dir =
      make_summary_paths load1 relpath in_dir (glob1 (in_dir @ ''/**/Summary.json'')) []"
    by (simp add: make_summary_def)
  also have "\<dots> =
      make_summary_paths load2 relpath in_dir (glob1 (in_dir @ ''/**/Summary.json'')) []"
    using assms(2) by (rule make_summary_paths_cong)
  also have "\<dots> = make_summary glob2 load2 relpath in_dir"
    by (simp add: make_summary_def assms(1))
  finally show ?thesis .
qed

lemma make_summary_example:
  "make_summary example_summary_glob example_load example_relpath ''out'' =
     [(''H1'', [(summary_outcome ''WARNING'')\<lparr>name := Some ''H1'', type_global := Some ''kine'',
                  type_specific := Some ''kine'',
                  rel_path_plot := Some ''kine/overlayPlots/H1.png''\<rparr>]),
      (''H2'', [(summary_outcome ''BAD'')\<lparr>name := Some ''H2'', type_global := Some ''hits'',
                  type_specific := Some ''hits/its'',
                  rel_path_plot := Some ''hits/its/overlayPlots/H2.png''\<rparr>])]"
  by (simp add: make_summary_def example_summary_glob_def example_load_def example_relpath_def
      annotate_def join_def summary_outcome_def Let_def)

theorem make_summary_last_writer_witness:
  "example_summary_glob (''out'' @ ''/**/Summary.json'') =
     [''out/hits/its/Summary.json''] @ ''out/kine/Summary.json'' # [] \<and>
   distinct (map fst (example_load ''out/kine/Summary.json'')) \<and>
   map_of (example_load ''out/kine/Summary.json'') ''H1'' = Some [summary_outcome ''WARNING''] \<and>
   map_of (example_load ''out/hits/its/Summary.json'') ''H1'' = Some [summary_outcome ''GOOD''] \<and>
   map_of (make_summary example_summary_glob example_load example_relpath ''out'') ''H1'' =
     Some (map (annotate example_relpath ''out'' ''out/kine/Summary.json'' ''H1'')
             [summary_outcome ''WARNING''])"
proof -
  have g: "example_summary_glob (''out'' @ ''/**/Summary.json'') =
      [''out/hits/its/Summary.json''] @ ''out/kine/Summary.json'' # []"
    by (simp add: example_summary_glob_def)
  have d: "distinct (map fst (example_load ''out/kine/Summary.json''))"
    by (simp add: example_load_def)
  have m: "map_of (example_load ''out/kine/Summary.json'') ''H1'' = Some [summary_outcome ''WARNING'']"
    by (simp add: example_load_def)
  have e: "map_of (example_load ''out/hits/its/Summary.json'') ''H1'' = Some [summary_outcome ''GOOD'']"
    by (simp add: example_load_def)
  have p: "\<forall>q \<in> set []. ''H1'' \<notin> fst ` set (example_load q)" by simp
  show ?thesis
    using g d m e
      make_summary_last_writer [where glob = example_summary_glob and in_dir = "''out''"
        and pre = "[''out/hits/its/Summary.json'']" and path = "''out/kine/Summary.json''"
        and post = "[]" and load = example_load and histo_name = "''H1''"
        and tests = "[summary_outcome ''WARNING'']" and relpath = example_relpath,
        OF g d m p]
    by (intro conjI)
qed

theorem make_summary_deterministic_witness:
  "example_summary_glob (''out'' @ ''/**/Summary.json'') =
     example_summary_glob2 (''out'' @ ''/**/Summary.json'') \<and>
   example_load2 ''out/SummaryGlobal.json'' =
     make_summary example_summary_glob example_load example_relpath ''out'' \<and>
   make_summary example_summary_glob example_load example_relpath ''out'' =
     make_summary example_summary_glob2 example_load2 example_relpath ''out''"
proof -
  have g: "example_summary_glob (''out'' @ ''/**/Summary.json'') =
      example_summary_glob2 (''out'' @ ''/**/Summary.json'')"
    by (simp add: example_summary_glob2_def)
  have l: "\<forall>path \<in> set (example_summary_glob (''out'' @ ''/**/Summary.json'')).
      example_load path = example_load2 path"
    by (simp add: example_summary_glob_def example_load2_def)
  have w: "example_load2 ''out/SummaryGlobal.json'' =
      make_summary example_summary_glob example_load example_relpath ''out''"
    by (simp add: example_load2_def)
  show ?thesis
    using g w
      make_summary_deterministic [where ?glob1.0 = example_summary_glob
        and ?glob2.0 = example_summary_glob2 and ?load1.0 = example_load
        and ?load2.0 = example_load2 and in_dir = "''out''" and relpath = example_relpath,
        OF g l]
    by (intro conjI)
qed

subsection \<open>Properties of \<open>rel_val_sim_dirs\<close>\<close>

lemma disable_comprehension_threshold:
  "disable_comprehension (args\<lparr>threshold := t\<rparr>) keys = disable_comprehension args keys"
  by (cases keys) simp_all

lemma run_over_keys_threshold:
  "run_over_keys (args\<lparr>threshold := t\<rparr>) config = run_over_keys args config"
  by (simp add: run_over_keys_def disable_comprehension_threshold Let_def)

lemma run_over_keys_no_disable:
  assumes "\<not> truthy (dir_config_disable args)"
  shows "run_over_keys args config = Inr (documented_keys args config)"
proof -
  from assms have "list_of (dir_config_disable args) = []"
    by (cases "dir_config_disable args") (simp_all add: truthy_def list_of_def)
  with assms show ?thesis
    by (simp add: run_over_keys_def documented_keys_def Let_def)
qed

lemma run_over_keys_attribute_error:
  assumes "truthy (dir_config_disable args)"
    and "(if truthy (dir_config_enable args)
          then filter (\<lambda>rok. rok \<in> set (list_of (dir_config_enable args))) (map fst config)
          else map fst config) \<noteq> []"
  shows "run_over_keys args config = Inl AttributeError"
proof -
  let ?keys = "if truthy (dir_config_enable args)
      then filter (\<lambda>rok. rok \<in> set (list_of (dir_config_enable args))) (map fst config)
      else map fst config"
  from assms(2) obtain k ks where "?keys = k # ks" by (cases ?keys) auto
  then have "disable_comprehension args ?keys = Inl AttributeError" by simp
  then show ?thesis using assms(1) by (simp add: run_over_keys_def Let_def)
qed

lemma threshold_default_value: "THRESHOLD_DEFAULT = 3602879701896397 / 2 ^ 55"
  by code_simp

lemma file_sizes_example:
  "file_sizes example_glob example_size [''A'', ''B''] (1 / 2) =
     Inr \<lparr>directories = [''A'', ''B''], files = [(''ab.root'', [100, 201])],
          collect_threshold = 1 / 2\<rparr>"
  by code_simp

lemma rel_val_sim_dirs_example:
  "rel_val_sim_dirs example_glob example_size example_config example_args =
     Inr \<lparr>file_sizes_to_json =
            \<lparr>directories = [''A'', ''B''], files = [(''ab.root'', [100, 201])],
             collect_threshold = 1 / 2\<rparr>,
          tasks_run =
            [\<lparr>in1 = [''A/ab.root'', ''A/c.root''], in2 = [''B/ab.root'', ''B/c.root''],
              current_output_dir = ''rel_val/hits/its''\<rparr>],
          return_code = 0\<rparr>"
  by code_simp

lemma file_sizes_example_default:
  "file_sizes example_glob example_size [''A'', ''B''] (threshold example_args) =
     Inr \<lparr>directories = [''A'', ''B''],
          files = [(''ab.root'', [100, 201]), (''c.root'', [65, 50])],
          collect_threshold = 3602879701896397 / 2 ^ 55\<rparr>"
  by code_simp

text \<open>
  Claim C6. The active groups should be the groups of the configuration, restricted to
  the enable-list and without the disable-list, and computing them should not fail. On
  the example configuration with the disable-list \<open>[kine]\<close> the documented result is
  \<open>[hits]\<close>, but the computation of \<open>run_over_keys\<close> raises \<open>AttributeError\<close>, and
  so does \<open>rel_val_sim_dirs\<close>.
\<close>

theorem run_over_keys_disable_raises:
  "run_over_keys (example_args\<lparr>dir_config_disable := Some [''kine'']\<rparr>)
       (example_config ''config.json'') = Inl AttributeError \<and>
   documented_keys (example_args\<lparr>dir_config_disable := Some [''kine'']\<rparr>)
       (example_config ''config.json'') = [''hits''] \<and>
   rel_val_sim_dirs example_glob example_size example_config
       (example_args\<lparr>dir_config_disable := Some [''kine'']\<rparr>) = Inl AttributeError"
  by code_simp

text \<open>A file that is empty in the second tree makes the audit raise.\<close>

lemma file_sizes_empty_file:
  "file_sizes example_glob (\<lambda>path. if path = ''B/c.root'' then 0 else 50) [''A'', ''B''] (1 / 2) =
     Inl ZeroDivisionError"
  by code_simp

lemma file_sizes_threshold:
  "file_sizes glob st_size dirs thr = Inr c \<Longrightarrow> collect_threshold c = thr"
  by (auto simp: file_sizes_def Let_def split: sum.splits)

text \<open>
  Claim C9. \<open>rel_val_sim_dirs\<close> does not depend on the \<open>--threshold\<close> argument:
  changing it changes neither the result nor the error. Whenever the function returns,
  the dictionary written to \<open>file_sizes.json\<close> is the one that \<open>file_sizes\<close> returns
  for the two directories at the threshold \<open>0.5\<close>, and it records that threshold; the
  default of \<open>--threshold\<close> is a different number.
\<close>

theorem rel_val_sim_dirs_threshold:
  "rel_val_sim_dirs glob st_size load_config (args\<lparr>threshold := t\<rparr>) =
     rel_val_sim_dirs glob st_size load_config args \<and>
   (\<forall>r. rel_val_sim_dirs glob st_size load_config args = Inr r \<longrightarrow>
      collect_threshold (file_sizes_to_json r) = 1 / 2 \<and>
      (\<exists>dir1 dir2 rest1 rest2. input1 args = dir1 # rest1 \<and> input2 args = dir2 # rest2 \<and>
         file_sizes glob st_size [dir1, dir2] (1 / 2) = Inr (file_sizes_to_json r))) \<and>
   THRESHOLD_DEFAULT \<noteq> 1 / 2"
proof (intro conjI allI impI)
  show "rel_val_sim_dirs glob st_size load_config (args\<lparr>threshold := t\<rparr>) =
     rel_val_sim_dirs glob st_size load_config args"
    by (simp add: rel_val_sim_dirs_def run_over_keys_threshold Let_def
        split: list.splits sum.splits)
next
  fix r assume r: "rel_val_sim_dirs glob st_size load_config args = Inr r"
  from r obtain dir1 rest1 where i1: "input1 args = dir1 # rest1"
    by (cases "input1 args") (auto simp: rel_val_sim_dirs_def)
  from r i1 obtain dir2 rest2 where i2: "input2 args = dir2 # rest2"
    by (cases "input2 args") (auto simp: rel_val_sim_dirs_def)
  from r i1 i2 obtain c where c: "file_sizes glob st_size [dir1, dir2] (1 / 2) = Inr c"
    by (cases "file_sizes glob st_size [dir1, dir2] (1 / 2)") (auto simp: rel_val_sim_dirs_def)
  from r i1 i2 c have fc: "file_sizes_to_json r = c"
    by (auto simp: rel_val_sim_dirs_def Let_def split: sum.splits if_splits)
  from c show "collect_threshold (file_sizes_to_json r) = 1 / 2"
    by (simp only: fc file_sizes_threshold)
  from i1 i2 c show "\<exists>dir1 dir2 rest1 rest2. input1 args = dir1 # rest1 \<and>
      input2 args = dir2 # rest2 \<and>
      file_sizes glob st_size [dir1, dir2] (1 / 2) = Inr (file_sizes_to_json r)"
    by (simp only: fc) blast
next
  show "THRESHOLD_DEFAULT \<noteq> 1 / 2" by (simp add: threshold_default_value)
qed

theorem rel_val_sim_dirs_threshold_witness:
  "threshold example_args = THRESHOLD_DEFAULT \<and>
   (\<exists>r. rel_val_sim_dirs example_glob example_size example_config example_args = Inr r \<and>
      rel_val_sim_dirs example_glob example_size example_config
        (example_args\<lparr>threshold := 9 / 10\<rparr>) = Inr r \<and>
      collect_threshold (file_sizes_to_json r) = 1 / 2 \<and>
      files (file_sizes_to_json r) = [(''ab.root'', [100, 201])])"
proof -
  have t: "threshold example_args = THRESHOLD_DEFAULT"
    by (simp add: example_args_def)
  show ?thesis
    using t rel_val_sim_dirs_example
      rel_val_sim_dirs_threshold [where glob = example_glob and st_size = example_size
        and load_config = example_config and args = example_args and t = "9 / 10"]
    by simp
qed

end
